theory Spec2Isabelle
  imports Complex_Main "HOL-Library.Log_Nat" "HOL-Library.Signed_Division"
begin

section \<open>Instants, durations and float64 arithmetic\<close>

text \<open>
  The expiry scan computes \<^verbatim>\<open>int(p.Expiry.Sub(now).Hours() / 24)\<close>. \<^verbatim>\<open>Sub\<close> yields a
  \<^verbatim>\<open>time.Duration\<close> (an int64 count of nanoseconds, saturating at both ends),
  \<^verbatim>\<open>Hours\<close> converts it to a float64, the division by 24 is a float64 division and
  \<^verbatim>\<open>int(...)\<close> truncates towards zero.

  An instant is its number of nanoseconds since the Unix epoch, an unbounded integer (the range
  of \<^verbatim>\<open>time.Time\<close> is far wider than that of a Duration). A finite float64 is the
  rational number it denotes; every float64 operation is the exact rational operation followed
  by rounding to the nearest number with a 53-bit significand, ties to even. The exponent range
  is left unbounded; \<open>rounded_values_in_range\<close> below shows that every value rounded on
  the way to a day count is 0 or lies within float64's normal range, where this rounding is
  float64's.
\<close>

type_synonym Time = int
type_synonym Duration = int
type_synonym float64 = rat

text \<open>Round a rational to the nearest integer, ties to the even one.\<close>

definition rne :: "rat \<Rightarrow> int" where
  "rne q = (let f = \<lfloor>q\<rfloor>; r = q - of_int f in
     if r < 1/2 then f else if 1/2 < r then f + 1 else if even f then f else f + 1)"

text \<open>The binary exponent of a positive rational: \<open>2 powi ilog2 x \<le> x < 2 powi (ilog2 x + 1)\<close>.\<close>

definition ilog2 :: "rat \<Rightarrow> int" where
  "ilog2 x = (if 1 \<le> x then bitlen \<lfloor>x\<rfloor> - 1 else - bitlen (\<lceil>1 / x\<rceil> - 1))"

definition round_f64 :: "rat \<Rightarrow> float64" where
  "round_f64 x = (if x = 0 then 0 else
     let u = 2 powi (ilog2 \<bar>x\<bar> - 52) in sgn x * of_int (rne (\<bar>x\<bar> / u)) * u)"

definition f64_of_int :: "int \<Rightarrow> float64" where
  "f64_of_int n = round_f64 (of_int n)"

definition f64_add :: "float64 \<Rightarrow> float64 \<Rightarrow> float64" where
  "f64_add x y = round_f64 (x + y)"

definition f64_div :: "float64 \<Rightarrow> float64 \<Rightarrow> float64" where
  "f64_div x y = round_f64 (x / y)"

text \<open>Go's conversion \<^verbatim>\<open>int(f)\<close> discards the fraction.\<close>

definition f64_to_int :: "float64 \<Rightarrow> int" where
  "f64_to_int x = (if 0 \<le> x then \<lfloor>x\<rfloor> else \<lceil>x\<rceil>)"

definition minDuration :: Duration where
  "minDuration = - (2 ^ 63)"

definition maxDuration :: Duration where
  "maxDuration = 2 ^ 63 - 1"

text \<open>
  \<^verbatim>\<open>func (t Time) Sub(u Time) Duration\<close>: the difference, or the minimum or maximum Duration
  when the difference does not fit.
\<close>

definition Sub :: "Time \<Rightarrow> Time \<Rightarrow> Duration" where
  "Sub t u = (if t - u < minDuration then minDuration
              else if maxDuration < t - u then maxDuration
              else t - u)"

definition Hour :: Duration where
  "Hour = 3600000000000"

text \<open>
  \<^verbatim>\<open>func (d Duration) Hours() float64 {
      hour := d / Hour
      nsec := d % Hour
      return float64(hour) + float64(nsec)/(60*60*1e9) }\<close>
  Go's integer \<^verbatim>\<open>/\<close> and \<^verbatim>\<open>%\<close> truncate towards zero (\<open>sdiv\<close>, \<open>smod\<close>).
\<close>

definition Hours :: "Duration \<Rightarrow> float64" where
  "Hours d = (let hour = d sdiv Hour; nsec = d smod Hour
              in f64_add (f64_of_int hour) (f64_div (f64_of_int nsec) (60 * 60 * 1000000000)))"

text \<open>
  The range in which rounding with an unbounded exponent is float64's rounding (0, or a
  magnitude from the smallest normal number up to \<open>2 powi 1023\<close>), and the exact values that
  the five roundings of \<^verbatim>\<open>d.Hours() / 24\<close> are applied to.
\<close>

definition f64_exact_range :: "rat \<Rightarrow> bool" where
  "f64_exact_range x = (x = 0 \<or> (2 powi (- 1022) \<le> \<bar>x\<bar> \<and> \<bar>x\<bar> \<le> 2 powi 1023))"

definition rounded_values :: "Duration \<Rightarrow> rat list" where
  "rounded_values d =
     [of_int (d sdiv Hour),
      of_int (d smod Hour),
      f64_of_int (d smod Hour) / (60 * 60 * 1000000000),
      f64_of_int (d sdiv Hour) + f64_div (f64_of_int (d smod Hour)) (60 * 60 * 1000000000),
      Hours d / 24]"

text \<open>The zero \<^verbatim>\<open>time.Time\<close> (January 1, year 1, 00:00 UTC), the value of an unset field.\<close>

definition zeroTime :: Time where
  "zeroTime = - 62135596800 * 1000000000"

section \<open>Data model\<close>

text \<open>
  The structs \<^verbatim>\<open>Product\<close> and \<^verbatim>\<open>User\<close>. Both have fields \<^verbatim>\<open>ID\<close> and \<^verbatim>\<open>Name\<close>; the
  product's are written \<open>ProductID\<close> and \<open>ProductName\<close> here. Identifiers are the
  store's positive row ids; 0 is the value of an unset \<^verbatim>\<open>uint\<close>.
\<close>

record Product =
  ProductID :: nat
  ProductName :: string
  Expiry :: Time
  UserID :: nat
  CreatedAt :: Time

record User =
  ID :: nat
  Name :: string
  Email :: string
  Products :: "Product list"

section \<open>Formatting\<close>

fun nat_digits :: "nat \<Rightarrow> string" where
  "nat_digits n = (if n < 10 then [char_of (48 + n)]
                   else nat_digits (n div 10) @ [char_of (48 + n mod 10)])"

declare nat_digits.simps [simp del]

text \<open>The verb \<^verbatim>\<open>%d\<close> of \<^verbatim>\<open>fmt.Sprintf\<close> on an \<^verbatim>\<open>int\<close>.\<close>

definition fmt_d :: "int \<Rightarrow> string" where
  "fmt_d i = (if i < 0 then CHR ''-'' # nat_digits (nat (- i)) else nat_digits (nat i))"

text \<open>The Thai words of the message, as the UTF-8 bytes of the source's string literals.\<close>

definition thai_remaining :: string where
  "thai_remaining = [CHR 0xE0, CHR 0xB9, CHR 0x80, CHR 0xE0, CHR 0xB8, CHR 0xAB, CHR 0xE0,
     CHR 0xB8, CHR 0xA5, CHR 0xE0, CHR 0xB8, CHR 0xB7, CHR 0xE0, CHR 0xB8, CHR 0xAD]"

definition thai_days :: string where
  "thai_days = [CHR 0xE0, CHR 0xB8, CHR 0xA7, CHR 0xE0, CHR 0xB8, CHR 0xB1, CHR 0xE0,
     CHR 0xB8, CHR 0x99]"

definition body_heading :: string where
  "body_heading = [CHR 0xE0, CHR 0xB8, CHR 0xA3, CHR 0xE0, CHR 0xB8, CHR 0xB2, CHR 0xE0,
     CHR 0xB8, CHR 0xA2, CHR 0xE0, CHR 0xB8, CHR 0x81, CHR 0xE0, CHR 0xB8, CHR 0xB2, CHR 0xE0,
     CHR 0xB8, CHR 0xA3, CHR 0xE0, CHR 0xB8, CHR 0xAA, CHR 0xE0, CHR 0xB8, CHR 0xB4, CHR 0xE0,
     CHR 0xB8, CHR 0x99, CHR 0xE0, CHR 0xB8, CHR 0x84, CHR 0xE0, CHR 0xB9, CHR 0x89, CHR 0xE0,
     CHR 0xB8, CHR 0xB2, CHR 0xE0, CHR 0xB8, CHR 0x97, CHR 0xE0, CHR 0xB8, CHR 0xB5, CHR 0xE0,
     CHR 0xB9, CHR 0x88, CHR 0xE0, CHR 0xB9, CHR 0x83, CHR 0xE0, CHR 0xB8, CHR 0x81, CHR 0xE0,
     CHR 0xB8, CHR 0xA5, CHR 0xE0, CHR 0xB9, CHR 0x89, CHR 0xE0, CHR 0xB8, CHR 0xAB, CHR 0xE0,
     CHR 0xB8, CHR 0xA1, CHR 0xE0, CHR 0xB8, CHR 0x94, CHR 0xE0, CHR 0xB8, CHR 0xAD, CHR 0xE0,
     CHR 0xB8, CHR 0xB2, CHR 0xE0, CHR 0xB8, CHR 0xA2, CHR 0xE0, CHR 0xB8, CHR 0xB8, CHR 0x3A,
     CHR 0x0A]"

definition mail_subject :: string where
  "mail_subject = [CHR 0xE0, CHR 0xB9, CHR 0x81, CHR 0xE0, CHR 0xB8, CHR 0x88, CHR 0xE0,
     CHR 0xB9, CHR 0x89, CHR 0xE0, CHR 0xB8, CHR 0x87, CHR 0xE0, CHR 0xB9, CHR 0x80, CHR 0xE0,
     CHR 0xB8, CHR 0x95, CHR 0xE0, CHR 0xB8, CHR 0xB7, CHR 0xE0, CHR 0xB8, CHR 0xAD, CHR 0xE0,
     CHR 0xB8, CHR 0x99, CHR 0xE0, CHR 0xB8, CHR 0xAA, CHR 0xE0, CHR 0xB8, CHR 0xB4, CHR 0xE0,
     CHR 0xB8, CHR 0x99, CHR 0xE0, CHR 0xB8, CHR 0x84, CHR 0xE0, CHR 0xB9, CHR 0x89, CHR 0xE0,
     CHR 0xB8, CHR 0xB2, CHR 0xE0, CHR 0xB8, CHR 0x82, CHR 0xE0, CHR 0xB8, CHR 0xAD, CHR 0xE0,
     CHR 0xB8, CHR 0x87, CHR 0xE0, CHR 0xB8, CHR 0x84, CHR 0xE0, CHR 0xB8, CHR 0xB8, CHR 0xE0,
     CHR 0xB8, CHR 0x93, CHR 0xE0, CHR 0xB9, CHR 0x83, CHR 0xE0, CHR 0xB8, CHR 0x81, CHR 0xE0,
     CHR 0xB8, CHR 0xA5, CHR 0xE0, CHR 0xB9, CHR 0x89, CHR 0xE0, CHR 0xB8, CHR 0xAB, CHR 0xE0,
     CHR 0xB8, CHR 0xA1, CHR 0xE0, CHR 0xB8, CHR 0x94, CHR 0xE0, CHR 0xB8, CHR 0xAD, CHR 0xE0,
     CHR 0xB8, CHR 0xB2, CHR 0xE0, CHR 0xB8, CHR 0xA2, CHR 0xE0, CHR 0xB8, CHR 0xB8]"

section \<open>The persistence store\<close>

text \<open>
  The global \<^verbatim>\<open>db *gorm.DB\<close> over SQLite, as a value that the operations take and return.
  The table \<^verbatim>\<open>users\<close> has the columns id, name and email (the field \<^verbatim>\<open>Products\<close> is an
  association, not a column); the table \<^verbatim>\<open>products\<close> has one column per field of
  \<^verbatim>\<open>Product\<close>. Rows are kept in insertion order.

  The storage layer can fail: \<open>failing db s\<close> tells whether the SQL statement \<open>s\<close> currently
  returns an error. \<open>raw_where db\<close> stands for the SQL engine evaluating an inline condition
  on the rows of \<^verbatim>\<open>users\<close> (\<open>None\<close>: the condition is rejected as invalid SQL); gorm
  passes a string condition that is not a number to the engine as it is.
\<close>

record user_row =
  row_id :: nat
  row_name :: string
  row_email :: string

datatype statement = SelectUsers | SelectProducts | InsertUser | InsertProduct

datatype db_error = ErrRecordNotFound | StorageError

record DB =
  users :: "user_row list"
  products :: "Product list"
  failing :: "statement \<Rightarrow> bool"
  raw_where :: "string \<Rightarrow> (user_row \<Rightarrow> bool) option"

text \<open>Scanning a row of \<^verbatim>\<open>users\<close> into a \<^verbatim>\<open>User\<close> leaves the association nil.\<close>

definition scan_user :: "user_row \<Rightarrow> User" where
  "scan_user r = \<lparr>ID = row_id r, Name = row_name r, Email = row_email r, Products = []\<rparr>"

text \<open>
  The id an insert assigns (\<^verbatim>\<open>integer PRIMARY KEY AUTOINCREMENT\<close>): one more than the
  largest id of the table, which never loses a row in this program.
\<close>

definition next_id :: "nat list \<Rightarrow> nat" where
  "next_id ids = Suc (fold max ids 0)"

text \<open>
  \<^verbatim>\<open>db.Create(&user)\<close> for a user whose \<^verbatim>\<open>ID\<close> is unset and whose \<^verbatim>\<open>Products\<close> is
  nil, as \<^verbatim>\<open>createUser\<close> builds it: the row is appended and the struct receives its id.
  When the insert fails the struct and the table are left as they are. The third component
  is the field \<^verbatim>\<open>Error\<close> of the result.
\<close>

definition Create_User :: "DB \<Rightarrow> User \<Rightarrow> DB \<times> User \<times> db_error option" where
  "Create_User db u =
     (if failing db InsertUser then (db, u, Some StorageError)
      else let i = next_id (map row_id (users db)) in
        (db\<lparr>users := users db @ [\<lparr>row_id = i, row_name = Name u, row_email = Email u\<rparr>]\<rparr>,
         u\<lparr>ID := i\<rparr>, None))"

text \<open>
  \<^verbatim>\<open>db.Create(&product)\<close> for a product whose \<^verbatim>\<open>ID\<close> and \<^verbatim>\<open>CreatedAt\<close> are unset: gorm
  fills \<^verbatim>\<open>CreatedAt\<close> with the current time before it runs the insert.
\<close>

definition Create_Product :: "Time \<Rightarrow> DB \<Rightarrow> Product \<Rightarrow> DB \<times> Product \<times> db_error option" where
  "Create_Product now db p =
     (let p1 = p\<lparr>CreatedAt := now\<rparr> in
      if failing db InsertProduct then (db, p1, Some StorageError)
      else let p2 = p1\<lparr>ProductID := next_id (map ProductID (products db))\<rparr> in
        (db\<lparr>products := products db @ [p2]\<rparr>, p2, None))"

text \<open>\<^verbatim>\<open>db.Find(&users)\<close>: every row; the slice stays empty when the query fails.\<close>

definition Find_Users :: "DB \<Rightarrow> User list \<times> db_error option" where
  "Find_Users db =
     (if failing db SelectUsers then ([], Some StorageError)
      else (map scan_user (users db), None))"

text \<open>
  \<^verbatim>\<open>db.Preload("Products").Find(&users)\<close>: the users are read first; when that query
  succeeds a second query reads their products, and every user receives, in the order of the
  result, the products whose \<^verbatim>\<open>user_id\<close> is its id.
\<close>

definition Preload_Products_Find :: "DB \<Rightarrow> User list \<times> db_error option" where
  "Preload_Products_Find db =
     (if failing db SelectUsers then ([], Some StorageError)
      else if failing db SelectProducts then (map scan_user (users db), Some StorageError)
      else (map (\<lambda>r. (scan_user r)\<lparr>Products := filter (\<lambda>p. UserID p = row_id r) (products db)\<rparr>)
                (users db), None))"

text \<open>A decimal integer with an optional sign, as \<^verbatim>\<open>strconv.Atoi\<close> reads one.\<close>

definition is_digit :: "char \<Rightarrow> bool" where
  "is_digit c = (c \<in> set ''0123456789'')"

definition digits_val :: "string \<Rightarrow> int" where
  "digits_val ds = foldl (\<lambda>a c. 10 * a + (of_char c - 48)) 0 ds"

definition split_sign :: "string \<Rightarrow> bool \<times> string" where
  "split_sign s = (case s of
       [] \<Rightarrow> (False, [])
     | c # r \<Rightarrow> if c = CHR ''-'' then (True, r) else if c = CHR ''+'' then (False, r)
                else (False, s))"

definition parse_int :: "string \<Rightarrow> int option" where
  "parse_int s =
     (case split_sign s of (neg, ds) \<Rightarrow>
        if ds = [] then None
        else if list_all is_digit ds
        then Some (if neg then - digits_val ds else digits_val ds)
        else None)"

text \<open>\<^verbatim>\<open>strconv.Atoi\<close>: the value must fit an \<^verbatim>\<open>int\<close> (64 bits).\<close>

definition Atoi :: "string \<Rightarrow> int option" where
  "Atoi s = (case parse_int s of
       None \<Rightarrow> None
     | Some v \<Rightarrow> if v < - (2 ^ 63) \<or> 2 ^ 63 - 1 < v then None else Some v)"

text \<open>The first row in the order of the primary key (\<^verbatim>\<open>ORDER BY id LIMIT 1\<close>).\<close>

definition first_by_id :: "user_row list \<Rightarrow> db_error + User" where
  "first_by_id rs = (if rs = [] then Inl ErrRecordNotFound
                     else Inr (scan_user (arg_min_list row_id rs)))"

text \<open>
  \<^verbatim>\<open>db.First(&user, cond)\<close> with a string condition. gorm takes a string that
  \<^verbatim>\<open>strconv.Atoi\<close> accepts for a value of the primary key, and any other string for an
  inline SQL condition.
\<close>

definition First_User :: "DB \<Rightarrow> string \<Rightarrow> db_error + User" where
  "First_User db cond =
     (if failing db SelectUsers then Inl StorageError
      else case Atoi cond of
          Some n \<Rightarrow> first_by_id (filter (\<lambda>r. int (row_id r) = n) (users db))
        | None \<Rightarrow> (case raw_where db cond of
              None \<Rightarrow> Inl StorageError
            | Some P \<Rightarrow> first_by_id (filter P (users db))))"

text \<open>
  A decimal literal: an optional sign, digits with an optional fraction (a digit on at least
  one side of the point) and an optional exponent; its value is exact.
\<close>

definition starts_with :: "char \<Rightarrow> string \<Rightarrow> bool" where
  "starts_with c s = (case s of [] \<Rightarrow> False | x # r \<Rightarrow> x = c)"

definition decimal_literal :: "string \<Rightarrow> rat option" where
  "decimal_literal s =
     (case split_sign s of (neg, s2) \<Rightarrow>
      let ip = takeWhile is_digit s2;
          s3 = dropWhile is_digit s2;
          has_dot = starts_with (CHR ''.'') s3;
          fp = (if has_dot then takeWhile is_digit (tl s3) else []);
          s4 = (if has_dot then dropWhile is_digit (tl s3) else s3);
          has_exp = (starts_with (CHR ''e'') s4 \<or> starts_with (CHR ''E'') s4);
          es = split_sign (tl s4);
          ed = takeWhile is_digit (snd es);
          s5 = (if has_exp then dropWhile is_digit (snd es) else s4);
          ex = (if has_exp then (if fst es then - digits_val ed else digits_val ed) else 0)
      in if (ip = [] \<and> fp = []) \<or> (has_exp \<and> ed = []) \<or> s5 \<noteq> [] then None
         else let m = of_int (digits_val (ip @ fp)) * 10 powi (ex - int (length fp))
              in Some (if neg then - m else m))"

text \<open>
  The number SQLite reads a text as when it compares the text with an integer column
  (numeric affinity): blanks around the text are skipped; an integer that fits 64 bits is
  taken exactly, any other decimal literal as the float64 nearest to it; a text that is no
  number equals no integer.
\<close>

definition is_space :: "char \<Rightarrow> bool" where
  "is_space c = (c \<in> set [CHR 0x20, CHR 0x09, CHR 0x0A, CHR 0x0B, CHR 0x0C, CHR 0x0D])"

definition trim :: "string \<Rightarrow> string" where
  "trim s = rev (dropWhile is_space (rev (dropWhile is_space s)))"

definition sqlite_numeric :: "string \<Rightarrow> rat option" where
  "sqlite_numeric s =
     (case Atoi (trim s) of
        Some n \<Rightarrow> Some (of_int n)
      | None \<Rightarrow> (case decimal_literal (trim s) of
            Some v \<Rightarrow> Some (round_f64 v)
          | None \<Rightarrow> None))"

text \<open>
  \<^verbatim>\<open>db.Where("user_id = ?", id).Find(&products)\<close>, the parameter bound as text: the
  products whose \<^verbatim>\<open>user_id\<close> equals the number SQLite reads the text as. An empty result
  is no error.
\<close>

definition Where_user_id_Find :: "DB \<Rightarrow> string \<Rightarrow> Product list \<times> db_error option" where
  "Where_user_id_Find db param =
     (if failing db SelectProducts then ([], Some StorageError)
      else (filter (\<lambda>p. sqlite_numeric param = Some (of_nat (UserID p))) (products db), None))"

section \<open>Request bodies\<close>

text \<open>
  \<^verbatim>\<open>c.ShouldBindJSON(&input)\<close> decodes the first JSON value of the request body into the
  handler's input struct with \<^verbatim>\<open>encoding/json\<close>. A body is given by the outcome of reading
  that value: \<open>None\<close> when the reader finds no well-formed JSON value, \<open>Some j\<close> when it
  reads \<open>j\<close>. What follows the first value in the body is never read, so a body is well
  formed as far as the handlers can tell when its first value is.
\<close>

datatype json =
    JNull
  | JBool bool
  | JNumber rat
  | JString string
  | JArray "json list"
  | JObject "(string \<times> json) list"

datatype bind_error = SyntaxError | UnmarshalTypeError | TimeParseError

definition to_lower :: "char \<Rightarrow> char" where
  "to_lower c = (if c \<in> set ''ABCDEFGHIJKLMNOPQRSTUVWXYZ''
                 then char_of (of_char c + (32 :: nat)) else c)"

text \<open>
  A member's key selects a field when it equals the field's JSON name, letter case ignored.
  (No letter of \<^verbatim>\<open>name\<close>, \<^verbatim>\<open>email\<close> or \<^verbatim>\<open>expiry\<close> has a case variant outside ASCII.)
\<close>

definition key_is :: "string \<Rightarrow> string \<Rightarrow> bool" where
  "key_is k field = (map to_lower k = field)"

text \<open>The decoder keeps the first error and goes on.\<close>

definition keep_first :: "bind_error option \<Rightarrow> bind_error \<Rightarrow> bind_error option" where
  "keep_first e new = (case e of None \<Rightarrow> Some new | Some old \<Rightarrow> Some old)"

text \<open>The input struct of \<^verbatim>\<open>createUser\<close>: \<^verbatim>\<open>struct { Name string; Email string }\<close>.\<close>

record user_input =
  input_Name :: string
  input_Email :: string

text \<open>A string field takes a JSON string, ignores \<^verbatim>\<open>null\<close> and rejects any other value.\<close>

definition set_user_field ::
    "string \<times> json \<Rightarrow> bind_error option \<times> user_input \<Rightarrow> bind_error option \<times> user_input" where
  "set_user_field kv acc =
     (case (kv, acc) of ((k, v), (e, inp)) \<Rightarrow>
        if key_is k ''name'' then
          (case v of JString s \<Rightarrow> (e, inp\<lparr>input_Name := s\<rparr>)
                   | JNull \<Rightarrow> (e, inp)
                   | _ \<Rightarrow> (keep_first e UnmarshalTypeError, inp))
        else if key_is k ''email'' then
          (case v of JString s \<Rightarrow> (e, inp\<lparr>input_Email := s\<rparr>)
                   | JNull \<Rightarrow> (e, inp)
                   | _ \<Rightarrow> (keep_first e UnmarshalTypeError, inp))
        else (e, inp))"

definition bind_user :: "json option \<Rightarrow> bind_error + user_input" where
  "bind_user body =
     (case body of
        None \<Rightarrow> Inl SyntaxError
      | Some JNull \<Rightarrow> Inr \<lparr>input_Name = [], input_Email = []\<rparr>
      | Some (JObject kvs) \<Rightarrow>
          (case fold set_user_field kvs (None, \<lparr>input_Name = [], input_Email = []\<rparr>) of
             (None, inp) \<Rightarrow> Inr inp
           | (Some e, inp) \<Rightarrow> Inl e)
      | Some _ \<Rightarrow> Inl UnmarshalTypeError)"

text \<open>
  The input struct of \<^verbatim>\<open>addProductToUser\<close>: \<^verbatim>\<open>struct { Name string; Expiry time.Time }\<close>.
  \<^verbatim>\<open>time.Time\<close> decodes a JSON string with its RFC 3339 parser, which is a parameter
  \<open>parse\<close> here (\<open>None\<close>: not a timestamp, a parse error), ignores \<^verbatim>\<open>null\<close> and
  rejects any other value with a type error. The first error is the one reported.
\<close>

record product_input =
  input_ProductName :: string
  input_Expiry :: Time

definition set_product_field ::
    "(string \<Rightarrow> Time option) \<Rightarrow> string \<times> json \<Rightarrow> bind_error option \<times> product_input
      \<Rightarrow> bind_error option \<times> product_input" where
  "set_product_field parse kv acc =
     (case (kv, acc) of ((k, v), (e, inp)) \<Rightarrow>
        if key_is k ''name'' then
          (case v of JString s \<Rightarrow> (e, inp\<lparr>input_ProductName := s\<rparr>)
                   | JNull \<Rightarrow> (e, inp)
                   | _ \<Rightarrow> (keep_first e UnmarshalTypeError, inp))
        else if key_is k ''expiry'' then
          (case v of JString s \<Rightarrow>
                       (case parse s of Some t \<Rightarrow> (e, inp\<lparr>input_Expiry := t\<rparr>)
                                      | None \<Rightarrow> (keep_first e TimeParseError, inp))
                   | JNull \<Rightarrow> (e, inp)
                   | _ \<Rightarrow> (keep_first e UnmarshalTypeError, inp))
        else (e, inp))"

definition bind_product :: "(string \<Rightarrow> Time option) \<Rightarrow> json option \<Rightarrow> bind_error + product_input" where
  "bind_product parse body =
     (case body of
        None \<Rightarrow> Inl SyntaxError
      | Some JNull \<Rightarrow> Inr \<lparr>input_ProductName = [], input_Expiry = zeroTime\<rparr>
      | Some (JObject kvs) \<Rightarrow>
          (case fold (set_product_field parse) kvs
                  (None, \<lparr>input_ProductName = [], input_Expiry = zeroTime\<rparr>) of
             (None, inp) \<Rightarrow> Inr inp
           | (Some e, inp) \<Rightarrow> Inl e)
      | Some _ \<Rightarrow> Inl UnmarshalTypeError)"

section \<open>HTTP handlers\<close>

text \<open>
  A handler takes the store and the request (the path parameter \<^verbatim>\<open>:id\<close> and the body) and
  returns the store and the response: the status code and the value given to \<^verbatim>\<open>c.JSON\<close>.
  A nil slice and an empty slice are both the empty list. The four handlers are those that
  \<^verbatim>\<open>main\<close> registers; \<^verbatim>\<open>addProduct\<close>, \<^verbatim>\<open>listProducts\<close> and \<^verbatim>\<open>sendEmail\<close> are never
  registered or called.
\<close>

datatype payload =
    BindFailure bind_error
  | ErrorMessage string
  | UserPayload User
  | UsersPayload "User list"
  | ProductPayload Product
  | ProductsPayload "Product list"

record Response =
  status :: nat
  obj :: payload

definition StatusOK :: nat where
  "StatusOK = 200"

definition StatusBadRequest :: nat where
  "StatusBadRequest = 400"

definition StatusNotFound :: nat where
  "StatusNotFound = 404"

text \<open>\<^verbatim>\<open>createUser\<close>: the result of \<^verbatim>\<open>db.Create\<close> is not inspected.\<close>

definition createUser :: "DB \<Rightarrow> json option \<Rightarrow> DB \<times> Response" where
  "createUser db body =
     (case bind_user body of
        Inl err \<Rightarrow> (db, \<lparr>status = StatusBadRequest, obj = BindFailure err\<rparr>)
      | Inr input \<Rightarrow>
          (case Create_User db \<lparr>ID = 0, Name = input_Name input, Email = input_Email input,
                                 Products = []\<rparr> of
             (db', user, _) \<Rightarrow> (db', \<lparr>status = StatusOK, obj = UserPayload user\<rparr>)))"

text \<open>\<^verbatim>\<open>listUsers\<close>: \<^verbatim>\<open>db.Find(&users)\<close> with no preload.\<close>

definition listUsers :: "DB \<Rightarrow> DB \<times> Response" where
  "listUsers db =
     (case Find_Users db of
        (us, _) \<Rightarrow> (db, \<lparr>status = StatusOK, obj = UsersPayload us\<rparr>))"

text \<open>
  \<^verbatim>\<open>addProductToUser\<close>: the body is bound first, then the user is looked up, then the
  product is inserted; \<open>now\<close> is the clock at the insert.
\<close>

definition addProductToUser ::
    "(string \<Rightarrow> Time option) \<Rightarrow> Time \<Rightarrow> DB \<Rightarrow> string \<Rightarrow> json option \<Rightarrow> DB \<times> Response" where
  "addProductToUser parse now db ident body =
     (case bind_product parse body of
        Inl err \<Rightarrow> (db, \<lparr>status = StatusBadRequest, obj = BindFailure err\<rparr>)
      | Inr input \<Rightarrow>
          (case First_User db ident of
             Inl err \<Rightarrow> (db, \<lparr>status = StatusNotFound, obj = ErrorMessage ''user not found''\<rparr>)
           | Inr user \<Rightarrow>
               (case Create_Product now db
                       \<lparr>ProductID = 0, ProductName = input_ProductName input,
                        Expiry = input_Expiry input, UserID = ID user, CreatedAt = zeroTime\<rparr> of
                  (db', product, _) \<Rightarrow>
                     (db', \<lparr>status = StatusOK, obj = ProductPayload product\<rparr>))))"

text \<open>\<^verbatim>\<open>listUserProducts\<close>: 404 when the query returns an error, 200 otherwise.\<close>

definition listUserProducts :: "DB \<Rightarrow> string \<Rightarrow> DB \<times> Response" where
  "listUserProducts db ident =
     (case Where_user_id_Find db ident of
        (ps, Some err) \<Rightarrow>
          (db, \<lparr>status = StatusNotFound, obj = ErrorMessage ''user not found or no products''\<rparr>)
      | (ps, None) \<Rightarrow> (db, \<lparr>status = StatusOK, obj = ProductsPayload ps\<rparr>))"

section \<open>The expiry scan\<close>

text \<open>
  A run of \<^verbatim>\<open>checkExpiryJob\<close> writes log lines and dials the mail server. Both are kept in
  the order they happen. The mail server is an oracle \<open>smtp\<close>: \<open>smtp k m\<close> is the error,
  if any, that the \<open>k\<close>-th \<^verbatim>\<open>DialAndSend\<close> of the run returns for the message \<open>m\<close>.
  Every dial is taken to return.
\<close>

record Message =
  From :: string
  To :: string
  Subject :: string
  Body :: string

datatype log_line =
    Running
  | Preparing string "string list"
  | SendFailed string
  | Sent string

record Run =
  logs :: "log_line list"
  dials :: "(Message \<times> string option) list"

type_synonym mailer = "nat \<Rightarrow> Message \<Rightarrow> string option"

definition days_left :: "Time \<Rightarrow> Product \<Rightarrow> int" where
  "days_left now p = f64_to_int (f64_div (Hours (Sub (Expiry p) now)) 24)"

text \<open>\<^verbatim>\<open>fmt.Sprintf("%s (... %d ...)", p.Name, daysLeft)\<close>, the two Thai words around the number.\<close>

definition Sprintf_expiring :: "string \<Rightarrow> int \<Rightarrow> string" where
  "Sprintf_expiring name daysLeft =
     name @ '' ('' @ thai_remaining @ '' '' @ fmt_d daysLeft @ '' '' @ thai_days @ '')''"

text \<open>The inner loop over \<^verbatim>\<open>u.Products\<close>, appending to \<^verbatim>\<open>expiring\<close>.\<close>

fun product_loop :: "Time \<Rightarrow> Product list \<Rightarrow> string list \<Rightarrow> string list" where
  "product_loop now [] expiring = expiring"
| "product_loop now (p # ps) expiring =
     (let daysLeft = days_left now p in
      product_loop now ps
        (if daysLeft \<le> 3 then expiring @ [Sprintf_expiring (ProductName p) daysLeft]
         else expiring))"

text \<open>The loop of \<^verbatim>\<open>sendEmailToUser\<close> that builds the body, one line per entry.\<close>

fun body_loop :: "string list \<Rightarrow> string \<Rightarrow> string" where
  "body_loop [] body = body"
| "body_loop (p # ps) body = body_loop ps (body @ ''- '' @ p @ [CHR 0x0A])"

text \<open>
  \<^verbatim>\<open>sendEmailToUser\<close>: one \<^verbatim>\<open>DialAndSend\<close>; its error is logged and not returned.
\<close>

definition sendEmailToUser :: "mailer \<Rightarrow> string \<Rightarrow> string list \<Rightarrow> Run \<Rightarrow> Run" where
  "sendEmailToUser smtp email ps run =
     (let m = \<lparr>From = ''your-email@gmail.com'', To = email, Subject = mail_subject,
               Body = body_loop ps body_heading\<rparr>;
          err = smtp (length (dials run)) m
      in run\<lparr>dials := dials run @ [(m, err)],
             logs := logs run @ [case err of Some e \<Rightarrow> SendFailed e | None \<Rightarrow> Sent email]\<rparr>)"

text \<open>The outer loop over the users.\<close>

fun user_loop :: "mailer \<Rightarrow> Time \<Rightarrow> User list \<Rightarrow> Run \<Rightarrow> Run" where
  "user_loop smtp now [] run = run"
| "user_loop smtp now (u # us) run =
     (let expiring = product_loop now (Products u) [] in
      user_loop smtp now us
        (if length expiring > 0
         then sendEmailToUser smtp (Email u) expiring
                (run\<lparr>logs := logs run @ [Preparing (Email u) expiring]\<rparr>)
         else run))"

text \<open>
  \<^verbatim>\<open>checkExpiryJob\<close>: the users are loaded with their products (the error of the query is not
  inspected), then the clock is read once (\<open>now\<close>), then the users are visited.
\<close>

definition checkExpiryJob :: "mailer \<Rightarrow> DB \<Rightarrow> Time \<Rightarrow> Run" where
  "checkExpiryJob smtp db now =
     (case Preload_Products_Find db of
        (us, _) \<Rightarrow> user_loop smtp now us \<lparr>logs = [Running], dials = []\<rparr>)"

section \<open>The specification's reading of the decision\<close>

text \<open>
  The spec's days left: the exact difference of the two instants divided by 24 hours with
  integer division truncating towards zero. A product qualifies when that is at most 3.
\<close>

definition spec_days_left :: "Time \<Rightarrow> Product \<Rightarrow> int" where
  "spec_days_left now p = (Expiry p - now) sdiv (24 * Hour)"

definition spec_qualifies :: "Time \<Rightarrow> Product \<Rightarrow> bool" where
  "spec_qualifies now p = (spec_days_left now p \<le> 3)"

section \<open>Reading a run\<close>

text \<open>
  Closed forms that the theorems compare a run with. \<open>qualifying\<close> keeps the products the
  code's own test accepts, in the order of the list; \<open>description\<close> is the entry the code
  formats for a product; \<open>mail\<close> is the message with one line per entry; \<open>outcome_line\<close> is
  the log line that reports a dial.
\<close>

definition qualifying :: "Time \<Rightarrow> Product list \<Rightarrow> Product list" where
  "qualifying now ps = filter (\<lambda>p. days_left now p \<le> 3) ps"

definition description :: "Time \<Rightarrow> Product \<Rightarrow> string" where
  "description now p = Sprintf_expiring (ProductName p) (days_left now p)"

definition mail :: "string \<Rightarrow> string list \<Rightarrow> Message" where
  "mail email ds = \<lparr>From = ''your-email@gmail.com'', To = email, Subject = mail_subject,
     Body = body_heading @ concat (map (\<lambda>d. ''- '' @ d @ [CHR 0x0A]) ds)\<rparr>"

definition is_outcome :: "log_line \<Rightarrow> bool" where
  "is_outcome l = (case l of SendFailed e \<Rightarrow> True | Sent a \<Rightarrow> True | _ \<Rightarrow> False)"

definition outcome_line :: "Message \<times> string option \<Rightarrow> log_line" where
  "outcome_line d = (case snd d of Some e \<Rightarrow> SendFailed e | None \<Rightarrow> Sent (To (fst d)))"

section \<open>Bodies that bind\<close>

text \<open>
  The bodies that \<^verbatim>\<open>createUser\<close> can bind, read off the JSON value: the literal
  \<^verbatim>\<open>null\<close>, or an object in which every member that selects the field name or the field
  email holds a string or \<^verbatim>\<open>null\<close>.
\<close>

definition user_member_ok :: "string \<times> json \<Rightarrow> bool" where
  "user_member_ok kv = (case kv of (k, v) \<Rightarrow>
      if key_is k ''name'' \<or> key_is k ''email''
      then (case v of JString s \<Rightarrow> True | JNull \<Rightarrow> True | _ \<Rightarrow> False)
      else True)"

definition binds_user :: "json option \<Rightarrow> bool" where
  "binds_user body = (case body of
       Some JNull \<Rightarrow> True
     | Some (JObject kvs) \<Rightarrow> list_all user_member_ok kvs
     | _ \<Rightarrow> False)"

section \<open>Example stores, requests and mail servers\<close>

text \<open>
  A store with two users: A owns milk that expires two days after instant 0, B owns rice
  that expires ten days after it. \<open>store2\<close> holds one more product, of a user that does
  not exist. \<open>insert_faults\<close> makes every insert fail. \<open>long_expired\<close> expired one
  nanosecond less than 200 days before instant 0.

  \<open>example_engine\<close> gives SQLite's answer for the inline conditions the examples use:
  \<^verbatim>\<open>1=1\<close> holds of every row, and a number holds of every row unless it is zero. It
  leaves every other condition rejected, which is SQLite's answer only for a text that is
  no SQL expression over the table.
\<close>

definition no_faults :: "statement \<Rightarrow> bool" where
  "no_faults s = False"

definition insert_faults :: "statement \<Rightarrow> bool" where
  "insert_faults s = (s = InsertUser \<or> s = InsertProduct)"

definition example_engine :: "string \<Rightarrow> (user_row \<Rightarrow> bool) option" where
  "example_engine c =
     (if c = ''1=1'' then Some (\<lambda>r. True)
      else case decimal_literal (trim c) of
          Some v \<Rightarrow> Some (\<lambda>r. v \<noteq> 0)
        | None \<Rightarrow> None)"

definition store1 :: DB where
  "store1 = \<lparr>users = [\<lparr>row_id = 1, row_name = ''A'', row_email = ''a@x.com''\<rparr>,
                       \<lparr>row_id = 2, row_name = ''B'', row_email = ''b@x.com''\<rparr>],
             products = [\<lparr>ProductID = 1, ProductName = ''Milk'', Expiry = 2 * 24 * Hour,
                          UserID = 1, CreatedAt = 0\<rparr>,
                         \<lparr>ProductID = 2, ProductName = ''Rice'', Expiry = 10 * 24 * Hour,
                          UserID = 2, CreatedAt = 0\<rparr>],
             failing = no_faults, raw_where = example_engine\<rparr>"

definition store2 :: DB where
  "store2 = store1\<lparr>products := products store1
              @ [\<lparr>ProductID = 3, ProductName = ''Salt'', Expiry = 0, UserID = 9, CreatedAt = 0\<rparr>]\<rparr>"

definition smtp_up :: mailer where
  "smtp_up k m = None"

definition smtp_down :: mailer where
  "smtp_down k m = Some ''dial tcp: connection refused''"

definition smtp_first_fails :: mailer where
  "smtp_first_fails k m = (if k = 0 then Some ''dial tcp: connection refused'' else None)"

definition long_expired :: Product where
  "long_expired = \<lparr>ProductID = 4, ProductName = ''Tea'', Expiry = 1 - 200 * 24 * Hour,
                    UserID = 1, CreatedAt = 0\<rparr>"

definition parse_example :: "string \<Rightarrow> Time option" where
  "parse_example s = (if s = ''2025-10-08T15:04:05Z'' then Some 1759935845000000000 else None)"

definition body_user_ok :: "json option" where
  "body_user_ok = Some (JObject [(''name'', JString ''C''), (''email'', JString ''c@x.com'')])"

definition body_user_bad :: "json option" where
  "body_user_bad = Some (JObject [(''name'', JNumber 5), (''email'', JString ''c@x.com'')])"

definition body_product_ok :: "json option" where
  "body_product_ok = Some (JObject [(''name'', JString ''Eggs''),
                                    (''expiry'', JString ''2025-10-08T15:04:05Z'')])"

section \<open>Rounding never crosses a float64\<close>

lemma rne_le: "q \<le> of_int n \<Longrightarrow> rne q \<le> n"
proof -
  assume a: "q \<le> of_int n"
  then have f: "\<lfloor>q\<rfloor> \<le> n" by (simp add: floor_le_iff) 
  show ?thesis
  proof (cases "\<lfloor>q\<rfloor> = n")
    case True
    then have "q = of_int n" using a by (metis of_int_floor_le order_antisym)
    then show ?thesis by (simp add: rne_def)
  next
    case False
    then have "\<lfloor>q\<rfloor> + 1 \<le> n" using f by simp
    then show ?thesis using f by (simp add: rne_def Let_def)
  qed
qed

lemma rne_ge: "of_int n \<le> q \<Longrightarrow> n \<le> rne q"
proof -
  assume "of_int n \<le> q"
  then have "n \<le> \<lfloor>q\<rfloor>" by (simp add: le_floor_iff)
  then show ?thesis by (simp add: rne_def Let_def)
qed

lemma ilog2_bounds:
  assumes "0 < x"
  shows "2 powi ilog2 x \<le> x" and "x < 2 powi (ilog2 x + 1)"
proof -
  have "2 powi ilog2 x \<le> x \<and> x < 2 powi (ilog2 x + 1)"
  proof (cases "1 \<le> x")
    case True
    define n where "n = \<lfloor>x\<rfloor>"
    have n: "0 < n" using True by (simp add: n_def)
    have e: "ilog2 x = bitlen n - 1" using True by (simp add: ilog2_def n_def)
    have b1: "1 \<le> bitlen n" using n by (simp add: bitlen_alt_def)
    from bitlen_bounds[OF n] have lo: "2 ^ nat (bitlen n - 1) \<le> n" and hi: "n < 2 ^ nat (bitlen n)"
      by auto
    have "(2::rat) powi (bitlen n - 1) = of_int (2 ^ nat (bitlen n - 1))"
      using b1 by (simp add: power_int_nonneg_exp)
    also have "\<dots> \<le> of_int n" using lo by (simp only: of_int_le_iff)
    also have "\<dots> \<le> x" by (simp add: n_def)
    finally have A: "2 powi ilog2 x \<le> x" by (simp add: e)
    have "n + 1 \<le> 2 ^ nat (bitlen n)" using hi by simp
    then have "(of_int (n + 1) :: rat) \<le> of_int (2 ^ nat (bitlen n))" by (simp only: of_int_le_iff)
    moreover have "x < of_int (n + 1)" by (simp add: n_def) linarith
    moreover have "(2::rat) powi (bitlen n - 1 + 1) = of_int (2 ^ nat (bitlen n))"
      using b1 by (simp add: power_int_nonneg_exp)
    ultimately have "x < 2 powi (ilog2 x + 1)" by (simp add: e)
    with A show ?thesis by simp
  next
    case False
    define y where "y = 1 / x"
    have y1: "1 < y" using False assms by (simp add: y_def)
    define m where "m = \<lceil>y\<rceil> - 1"
    have m: "0 < m" using y1 by (simp add: m_def less_ceiling_iff)
    have e: "ilog2 x = - bitlen m" using False by (simp add: ilog2_def m_def y_def)
    have b1: "1 \<le> bitlen m" using m by (simp add: bitlen_alt_def)
    from bitlen_bounds[OF m] have lo: "2 ^ nat (bitlen m - 1) \<le> m" and hi: "m < 2 ^ nat (bitlen m)"
      by auto
    have my: "of_int m < y" by (simp add: m_def) linarith
    have ym: "y \<le> of_int (m + 1)" by (simp add: m_def)
    have "m + 1 \<le> 2 ^ nat (bitlen m)" using hi by simp
    then have "(of_int (m + 1) :: rat) \<le> of_int (2 ^ nat (bitlen m))" by (simp only: of_int_le_iff)
    with ym have yhi: "y \<le> 2 powi bitlen m" using b1 by (simp add: power_int_nonneg_exp)
    have "(of_int (2 ^ nat (bitlen m - 1)) :: rat) \<le> of_int m" using lo by (simp only: of_int_le_iff)
    then have "(of_int (2 ^ nat (bitlen m - 1)) :: rat) < y" using my by (rule le_less_trans)
    then have ylo: "2 powi (bitlen m - 1) < y" using b1 by (simp add: power_int_nonneg_exp)
    have x: "x = 1 / y" using assms by (simp add: y_def)
    have ypos: "0 < y" using y1 by simp
    have A: "2 powi (- bitlen m) \<le> x"
      unfolding x power_int_minus_divide using yhi ypos
      by (simp add: frac_le)
    have B: "x < 2 powi (- bitlen m + 1)"
    proof -
      have "- bitlen m + 1 = - (bitlen m - 1)" by simp
      then have "(2::rat) powi (- bitlen m + 1) = 1 / 2 powi (bitlen m - 1)"
        by (simp only: power_int_minus_divide)
      moreover have "1 / y < 1 / 2 powi (bitlen m - 1)"
        using ylo by (simp add: frac_less2)
      ultimately show ?thesis by (simp add: x)
    qed
    from A B show ?thesis by (simp add: e)
  qed
  then show "2 powi ilog2 x \<le> x" and "x < 2 powi (ilog2 x + 1)" by auto
qed

lemma round_f64_nonneg: "0 \<le> x \<Longrightarrow> 0 \<le> round_f64 x"
proof -
  assume x: "0 \<le> x"
  show ?thesis
  proof (cases "x = 0")
    case True then show ?thesis by (simp add: round_f64_def)
  next
    case False
    define u :: rat where "u = 2 powi (ilog2 \<bar>x\<bar> - 52)"
    have u: "0 < u" by (simp add: u_def)
    have "of_int 0 \<le> \<bar>x\<bar> / u" using u by simp
    then have "0 \<le> rne (\<bar>x\<bar> / u)" by (rule rne_ge)
    then have "0 \<le> of_int (rne (\<bar>x\<bar> / u)) * u" using u by simp
    then show ?thesis using False x unfolding u_def by (simp add: round_f64_def Let_def)
  qed
qed

lemma round_f64_minus: "round_f64 (- x) = - round_f64 x"
  by (simp add: round_f64_def Let_def sgn_minus)

lemma round_f64_nonpos: "x \<le> 0 \<Longrightarrow> round_f64 x \<le> 0"
  using round_f64_nonneg[of "- x"] by (simp add: round_f64_minus)

lemma round_f64_pos_eq:
  "0 < x \<Longrightarrow> round_f64 x = of_int (rne (x / 2 powi (ilog2 x - 52))) * 2 powi (ilog2 x - 52)"
  by (simp add: round_f64_def Let_def)

lemma round_f64_pos_le:
  assumes M: "0 < M" "M < 2 ^ 53" and x: "0 < x" and le: "x \<le> of_int M * 2 powi K"
  shows "round_f64 x \<le> of_int M * 2 powi K"
proof -
  define e where "e = ilog2 x"
  define u :: rat where "u = 2 powi (e - 52)"
  have u: "0 < u" by (simp add: u_def)
  have "2 powi e \<le> x" unfolding e_def using x by (rule ilog2_bounds)
  also note le
  also have "of_int M * 2 powi K < 2 ^ 53 * (2::rat) powi K"
  proof -
    have "(of_int M :: rat) < of_int (2 ^ 53)" using M(2) by (simp only: of_int_less_iff)
    then show ?thesis by simp
  qed
  also have "\<dots> = 2 powi (53 + K)" by (simp add: power_int_add)
  finally have lt: "(2::rat) powi e < 2 powi (53 + K)" .
  have "e < 53 + K"
  proof (rule ccontr)
    assume "\<not> e < 53 + K"
    then have "53 + K \<le> e" by simp
    then have "(2::rat) powi (53 + K) \<le> 2 powi e" by (simp add: power_int_increasing)
    with lt show False by simp
  qed
  then have k: "0 \<le> K - (e - 52)" by simp
  have "(2::rat) powi K = 2 powi (K - (e - 52)) * u"
    unfolding u_def by (simp add: power_int_add[symmetric])
  also have "\<dots> = of_int (2 ^ nat (K - (e - 52))) * u"
    using k by (simp add: power_int_nonneg_exp)
  finally have c: "of_int M * 2 powi K = of_int (M * 2 ^ nat (K - (e - 52))) * u" by simp
  have "x / u \<le> of_int (M * 2 ^ nat (K - (e - 52)))"
    using le u unfolding c by (simp add: pos_divide_le_eq)
  then have "rne (x / u) \<le> M * 2 ^ nat (K - (e - 52))" by (rule rne_le)
  then have "(of_int (rne (x / u)) :: rat) \<le> of_int (M * 2 ^ nat (K - (e - 52)))"
    by (simp only: of_int_le_iff)
  then have "of_int (rne (x / u)) * u \<le> of_int (M * 2 ^ nat (K - (e - 52))) * u"
    using u by (simp only: mult_le_cancel_right_pos)
  then show ?thesis unfolding c using x by (simp add: round_f64_pos_eq u_def e_def)
qed

lemma round_f64_ge:
  assumes M: "0 < M" "M < 2 ^ 53" and ge: "of_int M * 2 powi K \<le> x"
  shows "of_int M * 2 powi K \<le> round_f64 x"
proof -
  have cpos: "(0::rat) < of_int M * 2 powi K" using M(1) by simp
  then have x: "0 < x" using ge by simp
  define e where "e = ilog2 x"
  define u :: rat where "u = 2 powi (e - 52)"
  have u: "0 < u" by (simp add: u_def)
  have r: "round_f64 x = of_int (rne (x / u)) * u"
    using x by (simp add: round_f64_pos_eq u_def e_def)
  show ?thesis
  proof (cases "e - 52 \<le> K")
    case True
    then have k: "0 \<le> K - (e - 52)" by simp
    have "(2::rat) powi K = 2 powi (K - (e - 52)) * u"
      unfolding u_def by (simp add: power_int_add[symmetric])
    also have "\<dots> = of_int (2 ^ nat (K - (e - 52))) * u"
      using k by (simp add: power_int_nonneg_exp)
    finally have c: "of_int M * 2 powi K = of_int (M * 2 ^ nat (K - (e - 52))) * u" by simp
    have "of_int (M * 2 ^ nat (K - (e - 52))) \<le> x / u"
      using ge u unfolding c by (simp add: pos_le_divide_eq)
    then have "M * 2 ^ nat (K - (e - 52)) \<le> rne (x / u)" by (rule rne_ge)
    then have "(of_int (M * 2 ^ nat (K - (e - 52))) :: rat) \<le> of_int (rne (x / u))"
      by (simp only: of_int_le_iff)
    then have "of_int (M * 2 ^ nat (K - (e - 52))) * u \<le> of_int (rne (x / u)) * u"
      using u by (simp only: mult_le_cancel_right_pos)
    then show ?thesis unfolding c r .
  next
    case False
    then have k: "K + 53 \<le> e" by simp
    have xe: "2 powi e \<le> x" unfolding e_def using x by (rule ilog2_bounds)
    have "(2::rat) powi (52 + (e - 52)) = 2 powi 52 * 2 powi (e - 52)"
      by (rule power_int_add) simp
    then have pe: "(2::rat) powi e = of_int (2 ^ 52) * u" unfolding u_def by simp
    have "of_int (2 ^ 52) \<le> x / u" using xe u unfolding pe by (simp add: pos_le_divide_eq)
    then have "2 ^ 52 \<le> rne (x / u)" by (rule rne_ge)
    then have "(of_int (2 ^ 52) :: rat) \<le> of_int (rne (x / u))" by (simp only: of_int_le_iff)
    then have "of_int (2 ^ 52) * u \<le> of_int (rne (x / u)) * u"
      using u by (simp only: mult_le_cancel_right_pos)
    then have lo: "2 powi e \<le> round_f64 x" unfolding pe r .
    have "(of_int M :: rat) \<le> of_int (2 ^ 53)" using M(2) by (simp only: of_int_le_iff)
    then have "of_int M * 2 powi K \<le> 2 ^ 53 * (2::rat) powi K" by simp
    also have "\<dots> = 2 powi (K + 53)" by (simp add: power_int_add)
    also have "\<dots> \<le> 2 powi e" using k by (simp add: power_int_increasing)
    also note lo
    finally show ?thesis .
  qed
qed

lemma round_f64_le:
  assumes M: "0 < M" "M < 2 ^ 53" and le: "x \<le> of_int M * 2 powi K"
  shows "round_f64 x \<le> of_int M * 2 powi K"
proof (cases "0 < x")
  case True
  with assms show ?thesis by (simp add: round_f64_pos_le)
next
  case False
  then have "round_f64 x \<le> 0" by (simp add: round_f64_nonpos)
  moreover have "(0::rat) \<le> of_int M * 2 powi K" using M(1) by simp
  ultimately show ?thesis by simp
qed

lemma f64_to_int_less: "x < of_int n \<Longrightarrow> 0 < n \<Longrightarrow> f64_to_int x < n"
  by (auto simp: f64_to_int_def floor_less_iff ceiling_less_iff) 

lemma f64_to_int_ge: "of_int n \<le> x \<Longrightarrow> 0 \<le> n \<Longrightarrow> n \<le> f64_to_int x"
  by (auto simp: f64_to_int_def le_floor_iff) 

section \<open>The day count against the threshold\<close>

lemma round_f64_int_le:
  "n \<le> m \<Longrightarrow> 0 < m \<Longrightarrow> m < 2 ^ 53 \<Longrightarrow> round_f64 (of_int n) \<le> of_int m"
  using round_f64_le[of m "of_int n" 0] by simp

lemma round_f64_int_ge:
  "m \<le> n \<Longrightarrow> 0 < m \<Longrightarrow> m < 2 ^ 53 \<Longrightarrow> of_int m \<le> round_f64 (of_int n)"
  using round_f64_ge[of m 0 "of_int n"] by simp

lemma days_small:
  assumes "d < 4 * 24 * Hour"
  shows "f64_to_int (f64_div (Hours d) 24) \<le> 3"
proof (cases "0 \<le> d")
  case True
  define hour where "hour = d sdiv Hour"
  define nsec where "nsec = d smod Hour"
  have hd: "hour = d div Hour" and nd: "nsec = d mod Hour"
    using True by (simp_all add: hour_def nsec_def Hour_def signed_divide_int_def signed_modulo_int_def sgn_if)
  have h: "hour \<le> 95" using assms unfolding hd Hour_def by simp
  have n: "nsec \<le> 3599999999999" unfolding nd Hour_def
    using pos_mod_bound[of 3600000000000 d] by simp
  have fh: "f64_of_int hour \<le> 95"
    using round_f64_int_le[OF h] by (simp add: f64_of_int_def)
  have fn: "f64_of_int nsec \<le> 3599999999999"
    using round_f64_int_le[OF n] by (simp add: f64_of_int_def)
  have "f64_of_int nsec / (60 * 60 * 1000000000) \<le> of_int (2 ^ 42 - 1) * 2 powi (- 42)"
    using fn by simp
  then have q: "f64_div (f64_of_int nsec) (60 * 60 * 1000000000) \<le> of_int (2 ^ 42 - 1) * 2 powi (- 42)"
    unfolding f64_div_def by (rule round_f64_le[rotated 2]) simp_all
  have "f64_of_int hour + f64_div (f64_of_int nsec) (60 * 60 * 1000000000)
          \<le> of_int (96 * 2 ^ 42 - 1) * 2 powi (- 42)"
    using fh q by simp
  then have "f64_add (f64_of_int hour) (f64_div (f64_of_int nsec) (60 * 60 * 1000000000))
          \<le> of_int (96 * 2 ^ 42 - 1) * 2 powi (- 42)"
    unfolding f64_add_def by (rule round_f64_le[rotated 2]) simp_all
  then have H: "Hours d \<le> of_int (96 * 2 ^ 42 - 1) * 2 powi (- 42)"
    by (simp add: Hours_def Let_def hour_def nsec_def)
  then have "Hours d / 24 \<le> of_int (2 ^ 49 - 1) * 2 powi (- 47)" by simp
  then have "f64_div (Hours d) 24 \<le> of_int (2 ^ 49 - 1) * 2 powi (- 47)"
    unfolding f64_div_def by (rule round_f64_le[rotated 2]) simp_all
  then have "f64_div (Hours d) 24 < of_int 4" by simp
  then have "f64_to_int (f64_div (Hours d) 24) < 4" by (rule f64_to_int_less) simp
  then show ?thesis by simp
next
  case False
  define hour where "hour = d sdiv Hour"
  define nsec where "nsec = d smod Hour"
  have "hour \<le> 0" and "nsec \<le> 0"
    using False by (simp_all add: hour_def nsec_def Hour_def signed_divide_int_def signed_modulo_int_def sgn_if)
  then have fh: "f64_of_int hour \<le> 0" and fn: "f64_of_int nsec \<le> 0"
    by (simp_all add: f64_of_int_def round_f64_nonpos)
  have "f64_of_int nsec / (60 * 60 * 1000000000) \<le> 0" using fn by simp
  then have "f64_div (f64_of_int nsec) (60 * 60 * 1000000000) \<le> 0"
    unfolding f64_div_def by (rule round_f64_nonpos)
  with fh have "f64_of_int hour + f64_div (f64_of_int nsec) (60 * 60 * 1000000000) \<le> 0" by simp
  then have "f64_add (f64_of_int hour) (f64_div (f64_of_int nsec) (60 * 60 * 1000000000)) \<le> 0"
    unfolding f64_add_def by (rule round_f64_nonpos)
  then have "Hours d \<le> 0" by (simp add: Hours_def Let_def hour_def nsec_def)
  then have "Hours d / 24 \<le> 0" by simp
  then have "f64_div (Hours d) 24 \<le> 0" unfolding f64_div_def by (rule round_f64_nonpos)
  then have "f64_div (Hours d) 24 < of_int 1" by simp
  then have "f64_to_int (f64_div (Hours d) 24) < 1" by (rule f64_to_int_less) simp
  then show ?thesis by simp
qed

lemma days_large:
  assumes "4 * 24 * Hour \<le> d"
  shows "4 \<le> f64_to_int (f64_div (Hours d) 24)"
proof -
  define hour where "hour = d sdiv Hour"
  define nsec where "nsec = d smod Hour"
  have d0: "0 \<le> d" using assms by (simp add: Hour_def)
  have hd: "hour = d div Hour" and nd: "nsec = d mod Hour"
    using d0 by (simp_all add: hour_def nsec_def Hour_def signed_divide_int_def signed_modulo_int_def sgn_if)
  have h: "96 \<le> hour" using assms unfolding hd Hour_def by simp
  have n: "0 \<le> nsec" unfolding nd Hour_def by simp
  have fh: "96 \<le> f64_of_int hour"
    using round_f64_int_ge[OF h] by (simp add: f64_of_int_def)
  have fn: "0 \<le> f64_of_int nsec" using n by (simp add: f64_of_int_def round_f64_nonneg)
  have "0 \<le> f64_of_int nsec / (60 * 60 * 1000000000)" using fn by simp
  then have q: "0 \<le> f64_div (f64_of_int nsec) (60 * 60 * 1000000000)"
    unfolding f64_div_def by (rule round_f64_nonneg)
  have "of_int 96 * 2 powi 0 \<le> f64_of_int hour + f64_div (f64_of_int nsec) (60 * 60 * 1000000000)"
    using fh q by simp
  then have "of_int 96 * 2 powi 0 \<le> f64_add (f64_of_int hour) (f64_div (f64_of_int nsec) (60 * 60 * 1000000000))"
    unfolding f64_add_def by (rule round_f64_ge[rotated 2]) simp_all
  then have H: "96 \<le> Hours d"
    by (simp add: Hours_def Let_def hour_def nsec_def)
  then have "of_int 4 * 2 powi 0 \<le> Hours d / 24" by simp
  then have "of_int 4 * 2 powi 0 \<le> f64_div (Hours d) 24"
    unfolding f64_div_def by (rule round_f64_ge[rotated 2]) simp_all
  then have "of_int 4 \<le> f64_div (Hours d) 24" by simp
  then have "4 \<le> f64_to_int (f64_div (Hours d) 24)" by (rule f64_to_int_ge) simp
  then show ?thesis by simp
qed

lemma days_le_3_iff: "f64_to_int (f64_div (Hours d) 24) \<le> 3 \<longleftrightarrow> d < 4 * 24 * Hour"
  using days_small[of d] days_large[of d] by linarith

lemma sdiv_day_le_3_iff: "d sdiv (24 * Hour) \<le> 3 \<longleftrightarrow> d < 4 * 24 * Hour"
  by (auto simp: Hour_def signed_divide_int_def sgn_if)

section \<open>The roundings stay in float64's normal range\<close>

lemma Sub_range: "minDuration \<le> Sub t u \<and> Sub t u \<le> maxDuration"
  by (simp add: Sub_def minDuration_def maxDuration_def)

lemma f64_exact_range_minus: "f64_exact_range (- x) = f64_exact_range x"
  by (simp add: f64_exact_range_def)

lemma f64_exact_rangeI:
  "2 powi (- 47) \<le> x \<Longrightarrow> x \<le> 2 powi 63 \<Longrightarrow> f64_exact_range x"
proof -
  assume a: "2 powi (- 47) \<le> x" and b: "x \<le> 2 powi 63"
  have "(2::rat) powi (- 1022) \<le> 2 powi (- 47)" by (rule power_int_increasing) simp_all
  moreover have "(2::rat) powi 63 \<le> 2 powi 1023" by (rule power_int_increasing) simp_all
  moreover have "0 < x" using a zero_less_power_int[of "2::rat" "- 47"] by linarith
  ultimately show ?thesis using a b unfolding f64_exact_range_def by auto
qed

lemma f64_of_int_0: "f64_of_int 0 = 0"
  by (simp add: f64_of_int_def round_f64_def)

lemma f64_of_int_minus: "f64_of_int (- n) = - f64_of_int n"
  by (simp add: f64_of_int_def round_f64_minus)

lemma f64_div_minus: "f64_div (- x) y = - f64_div x y"
  by (simp add: f64_div_def round_f64_minus)

lemma f64_add_minus: "f64_add (- x) (- y) = - f64_add x y"
proof -
  have "- x + - y = - (x + y)" by simp
  then show ?thesis unfolding f64_add_def by (simp only: round_f64_minus)
qed

lemma Hours_minus: "Hours (- d) = - Hours d"
  by (simp add: Hours_def Let_def f64_of_int_minus f64_div_minus f64_add_minus)

lemma roundings_in_range_nonneg:
  assumes d: "0 \<le> d" "d \<le> 2 ^ 63"
  shows "f64_exact_range (of_int (d sdiv Hour))"
    and "f64_exact_range (of_int (d smod Hour))"
    and "f64_exact_range (f64_of_int (d smod Hour) / (60 * 60 * 1000000000))"
    and "f64_exact_range (f64_of_int (d sdiv Hour)
            + f64_div (f64_of_int (d smod Hour)) (60 * 60 * 1000000000))"
    and "f64_exact_range (Hours d / 24)"
proof -
  define hour where "hour = d sdiv Hour"
  define nsec where "nsec = d smod Hour"
  define q where "q = f64_div (f64_of_int nsec) (60 * 60 * 1000000000)"
  have hd: "hour = d div Hour" and nd: "nsec = d mod Hour"
    using d by (simp_all add: hour_def nsec_def Hour_def signed_divide_int_def signed_modulo_int_def sgn_if)
  have h0: "0 \<le> hour" using d unfolding hd Hour_def by (simp add: pos_imp_zdiv_nonneg_iff)
  have h1: "hour \<le> 2562048" using d unfolding hd Hour_def by simp
  have n0: "0 \<le> nsec" unfolding nd Hour_def by simp
  have n1: "nsec \<le> 3599999999999" unfolding nd Hour_def
    using pos_mod_bound[of 3600000000000 d] by simp
  have int_range: "f64_exact_range (of_int n)" if "0 \<le> n" "n \<le> 3599999999999" for n :: int
  proof (cases "n = 0")
    case True then show ?thesis by (simp add: f64_exact_range_def)
  next
    case False
    with that have "(1::rat) \<le> of_int n" by simp
    moreover have "(2::rat) powi (- 47) \<le> 1" by simp
    moreover have "(of_int n :: rat) \<le> 2 powi 63" using that by simp
    ultimately show ?thesis by (intro f64_exact_rangeI) linarith+
  qed
  show A: "f64_exact_range (of_int (d sdiv Hour))"
    using int_range[of hour] h0 h1 by (simp add: hour_def)
  show B: "f64_exact_range (of_int (d smod Hour))"
    using int_range[of nsec] n0 n1 by (simp add: nsec_def)
  have fh0: "0 \<le> f64_of_int hour" using h0 by (simp add: f64_of_int_def round_f64_nonneg)
  have fh1: "f64_of_int hour \<le> 2562048"
    using round_f64_int_le[OF h1] by (simp add: f64_of_int_def)
  have fn0: "0 \<le> f64_of_int nsec" using n0 by (simp add: f64_of_int_def round_f64_nonneg)
  have fn1: "f64_of_int nsec \<le> 3599999999999"
    using round_f64_int_le[OF n1] by (simp add: f64_of_int_def)
  have fh_pos: "1 \<le> f64_of_int hour" if "hour \<noteq> 0"
  proof -
    from that h0 have "1 \<le> hour" by simp
    from round_f64_int_ge[OF this] show ?thesis by (simp add: f64_of_int_def)
  qed
  have fn_pos: "1 \<le> f64_of_int nsec" if "nsec \<noteq> 0"
  proof -
    from that n0 have "1 \<le> nsec" by simp
    from round_f64_int_ge[OF this] show ?thesis by (simp add: f64_of_int_def)
  qed
  have fn_zero: "f64_of_int nsec = 0" if "nsec = 0"
    using that by (simp add: f64_of_int_0)
  have fh_zero: "f64_of_int hour = 0" if "hour = 0"
    using that by (simp add: f64_of_int_0)
  have C': "f64_exact_range (f64_of_int nsec / (60 * 60 * 1000000000))"
  proof (cases "nsec = 0")
    case True then show ?thesis by (simp add: f64_of_int_0 f64_exact_range_def)
  next
    case False
    have "2 powi (- 47) \<le> f64_of_int nsec / (60 * 60 * 1000000000)"
      using fn_pos[OF False] by simp
    moreover have "f64_of_int nsec / (60 * 60 * 1000000000) \<le> 2 powi 63"
      using fn1 by simp
    ultimately show ?thesis by (rule f64_exact_rangeI)
  qed
  then show "f64_exact_range (f64_of_int (d smod Hour) / (60 * 60 * 1000000000))"
    by (simp add: nsec_def)
  have q0: "0 \<le> q" unfolding q_def f64_div_def using fn0 by (intro round_f64_nonneg) simp
  have q1: "q \<le> 1"
  proof -
    have "f64_of_int nsec / (60 * 60 * 1000000000) \<le> of_int 1 * 2 powi 0" using fn1 by simp
    then have "round_f64 (f64_of_int nsec / (60 * 60 * 1000000000)) \<le> of_int 1 * 2 powi 0"
      by (rule round_f64_le[rotated 2]) simp_all
    then show ?thesis by (simp add: q_def f64_div_def)
  qed
  have q_pos: "2 powi (- 42) \<le> q" if "nsec \<noteq> 0"
  proof -
    have "of_int 1 * 2 powi (- 42) \<le> f64_of_int nsec / (60 * 60 * 1000000000)"
      using fn_pos[OF that] by simp
    then have "of_int 1 * 2 powi (- 42) \<le> round_f64 (f64_of_int nsec / (60 * 60 * 1000000000))"
      by (rule round_f64_ge[rotated 2]) simp_all
    then show ?thesis by (simp add: q_def f64_div_def)
  qed
  have q_zero: "q = 0" if "nsec = 0"
    using that by (simp add: q_def f64_div_def f64_of_int_0 round_f64_def)
  have D': "f64_exact_range (f64_of_int hour + q)"
  proof (cases "hour = 0 \<and> nsec = 0")
    case True
    then have "f64_of_int hour + q = 0" using fh_zero q_zero by simp
    then show ?thesis by (simp add: f64_exact_range_def)
  next
    case False
    have "2 powi (- 42) \<le> f64_of_int hour + q"
    proof (cases "nsec = 0")
      case True
      with False have "hour \<noteq> 0" by simp
      from fh_pos[OF this] q0 show ?thesis by simp
    next
      case nz: False
      from q_pos[OF nz] fh0 show ?thesis by simp
    qed
    then have "2 powi (- 47) \<le> f64_of_int hour + q" by simp
    moreover have "f64_of_int hour + q \<le> 2 powi 63" using fh1 q1 by simp
    ultimately show ?thesis by (rule f64_exact_rangeI)
  qed
  then show "f64_exact_range (f64_of_int (d sdiv Hour)
            + f64_div (f64_of_int (d smod Hour)) (60 * 60 * 1000000000))"
    by (simp add: hour_def nsec_def q_def)
  have H: "Hours d = round_f64 (f64_of_int hour + q)"
    by (simp add: Hours_def Let_def f64_add_def hour_def nsec_def q_def)
  show "f64_exact_range (Hours d / 24)"
  proof (cases "hour = 0 \<and> nsec = 0")
    case True
    then have "f64_of_int hour + q = 0" using fh_zero q_zero by simp
    then have "Hours d = 0" unfolding H by (simp add: round_f64_def)
    then show ?thesis by (simp add: f64_exact_range_def)
  next
    case False
    have "of_int 1 * 2 powi (- 42) \<le> f64_of_int hour + q"
    proof (cases "nsec = 0")
      case True
      with False have "hour \<noteq> 0" by simp
      from fh_pos[OF this] q0 show ?thesis by simp
    next
      case nz: False
      from q_pos[OF nz] fh0 show ?thesis by simp
    qed
    then have "of_int 1 * 2 powi (- 42) \<le> Hours d"
      unfolding H by (rule round_f64_ge[rotated 2]) simp_all
    then have lo: "2 powi (- 47) \<le> Hours d / 24" by simp
    have "f64_of_int hour + q \<le> of_int 2562049 * 2 powi 0" using fh1 q1 by simp
    then have "Hours d \<le> of_int 2562049 * 2 powi 0"
      unfolding H by (rule round_f64_le[rotated 2]) simp_all
    then have "Hours d / 24 \<le> 2 powi 63" by simp
    with lo show ?thesis by (rule f64_exact_rangeI)
  qed
qed

lemma rounded_values_minus: "rounded_values (- d) = map uminus (rounded_values d)"
  by (simp add: rounded_values_def f64_of_int_minus f64_div_minus Hours_minus)

lemma rounded_values_nonneg:
  "0 \<le> d \<Longrightarrow> d \<le> 2 ^ 63 \<Longrightarrow> list_all f64_exact_range (rounded_values d)"
  using roundings_in_range_nonneg[of d] by (simp add: rounded_values_def)

lemma rounded_values_in_range:
  "list_all f64_exact_range (rounded_values (Sub t u))"
proof (cases "0 \<le> Sub t u")
  case True
  moreover have "Sub t u \<le> 2 ^ 63"
    using Sub_range[of t u] by (simp add: maxDuration_def)
  ultimately show ?thesis by (rule rounded_values_nonneg)
next
  case False
  then have "0 \<le> - Sub t u" by simp
  moreover have "- Sub t u \<le> 2 ^ 63"
    using Sub_range[of t u] by (simp add: minDuration_def)
  ultimately have "list_all f64_exact_range (rounded_values (- Sub t u))"
    by (rule rounded_values_nonneg)
  then show ?thesis
    by (simp add: rounded_values_minus list_all_iff f64_exact_range_minus)
qed

section \<open>The loops in closed form\<close>

lemma product_loop_eq:
  "product_loop now ps acc = acc @ map (description now) (qualifying now ps)"
  by (induction ps arbitrary: acc) (simp_all add: Let_def description_def qualifying_def)

lemma body_loop_eq:
  "body_loop ps b = b @ concat (map (\<lambda>d. ''- '' @ d @ [CHR 0x0A]) ps)"
  by (induction ps arbitrary: b) simp_all

lemma sendEmailToUser_dials:
  "dials (sendEmailToUser smtp email ds run)
     = dials run @ [(mail email ds, smtp (length (dials run)) (mail email ds))]"
  by (simp add: sendEmailToUser_def Let_def mail_def body_loop_eq)

lemma sendEmailToUser_logs:
  "logs (sendEmailToUser smtp email ds run)
     = logs run @ [outcome_line (mail email ds, smtp (length (dials run)) (mail email ds))]"
  by (simp add: sendEmailToUser_def Let_def mail_def body_loop_eq outcome_line_def
      split: option.splits)

lemma user_loop_skip:
  "qualifying now (Products u) = []
   \<Longrightarrow> user_loop smtp now (u # us) run = user_loop smtp now us run"
  by (simp add: product_loop_eq)

lemma user_loop_send:
  "qualifying now (Products u) \<noteq> []
   \<Longrightarrow> user_loop smtp now (u # us) run
       = user_loop smtp now us
           (sendEmailToUser smtp (Email u) (map (description now) (qualifying now (Products u)))
              (run\<lparr>logs := logs run
                 @ [Preparing (Email u) (map (description now) (qualifying now (Products u)))]\<rparr>))"
  by (simp add: product_loop_eq Let_def)

lemma user_loop_messages:
  "map fst (dials (user_loop smtp now us run))
     = map fst (dials run)
       @ concat (map (\<lambda>u. if 1 \<le> length (qualifying now (Products u))
                           then [mail (Email u) (map (description now) (qualifying now (Products u)))]
                           else []) us)"
proof (induction us arbitrary: run)
  case Nil
  show ?case by simp
next
  case (Cons u us)
  show ?case
  proof (cases "qualifying now (Products u) = []")
    case True
    then show ?thesis by (simp only: user_loop_skip Cons.IH) simp
  next
    case False
    then have "1 \<le> length (qualifying now (Products u))"
      by (cases "qualifying now (Products u)") simp_all
    then show ?thesis
      unfolding user_loop_send[OF False] Cons.IH by (simp add: sendEmailToUser_dials)
  qed
qed

lemma user_loop_outcomes:
  "filter is_outcome (logs run) = map outcome_line (dials run)
   \<Longrightarrow> filter is_outcome (logs (user_loop smtp now us run))
     = map outcome_line (dials (user_loop smtp now us run))"
proof (induction us arbitrary: run)
  case Nil
  then show ?case by simp
next
  case (Cons u us)
  show ?case
  proof (cases "qualifying now (Products u) = []")
    case True
    then show ?thesis using Cons by (simp only: user_loop_skip)
  next
    case False
    have "is_outcome (outcome_line d)" for d
      by (simp add: is_outcome_def outcome_line_def split: option.splits)
    then show ?thesis
      unfolding user_loop_send[OF False]
      using Cons.prems
      by (intro Cons.IH) (simp add: sendEmailToUser_dials sendEmailToUser_logs is_outcome_def)
  qed
qed

lemma user_loop_oracle:
  "map snd (dials run) = map (\<lambda>(k, m). smtp k m) (enumerate 0 (map fst (dials run)))
   \<Longrightarrow> map snd (dials (user_loop smtp now us run))
     = map (\<lambda>(k, m). smtp k m) (enumerate 0 (map fst (dials (user_loop smtp now us run))))"
proof (induction us arbitrary: run)
  case Nil
  then show ?case by simp
next
  case (Cons u us)
  show ?case
  proof (cases "qualifying now (Products u) = []")
    case True
    then show ?thesis using Cons by (simp only: user_loop_skip)
  next
    case False
    show ?thesis
      unfolding user_loop_send[OF False]
      using Cons.prems
      by (intro Cons.IH) (simp add: sendEmailToUser_dials enumerate_append_eq)
  qed
qed

lemma job_messages:
  "map fst (dials (checkExpiryJob smtp db now))
     = concat (map (\<lambda>u. if 1 \<le> length (qualifying now (Products u))
                         then [mail (Email u) (map (description now) (qualifying now (Products u)))]
                         else []) (fst (Preload_Products_Find db)))"
  by (simp add: checkExpiryJob_def user_loop_messages split: prod.splits)

lemma concat_if_filter:
  "concat (map (\<lambda>u. if P u then [f u] else []) us) = map f (filter P us)"
  by (induction us) simp_all

lemma Sub_small_iff: "Sub t u < 4 * 24 * Hour \<longleftrightarrow> t - u < 4 * 24 * Hour"
  by (simp add: Sub_def minDuration_def maxDuration_def Hour_def)

lemma days_left_le_3_iff: "days_left now p \<le> 3 \<longleftrightarrow> spec_qualifies now p"
proof -
  have "days_left now p \<le> 3 \<longleftrightarrow> Sub (Expiry p) now < 4 * 24 * Hour"
    unfolding days_left_def by (rule days_le_3_iff)
  also have "\<dots> \<longleftrightarrow> Expiry p - now < 4 * 24 * Hour"
    by (rule Sub_small_iff)
  also have "\<dots> \<longleftrightarrow> (Expiry p - now) sdiv (24 * Hour) \<le> 3"
    by (rule sdiv_day_le_3_iff[symmetric])
  finally show ?thesis by (simp only: spec_qualifies_def spec_days_left_def)
qed

lemma qualifying_spec: "qualifying now ps = filter (spec_qualifies now) ps"
  by (simp add: qualifying_def days_left_le_3_iff)

section \<open>The claims about the expiry scan\<close>

text \<open>
  C1. A run compares every product with the one instant \<open>now\<close>, and a product enters a
  notification exactly when the exact difference of its expiry and \<open>now\<close>, divided by 24
  hours and truncated towards zero, is at most 3: the code's own test (on float64 hours)
  agrees with that decision for every product, and the messages of the run are those of the
  users that have such a product, each listing exactly such products.
\<close>

theorem expiry_decision:
  "(days_left now p \<le> 3) = (spec_days_left now p \<le> 3)
   \<and> map fst (dials (checkExpiryJob smtp db now))
       = map (\<lambda>u. mail (Email u)
                    (map (description now) (filter (\<lambda>p. spec_days_left now p \<le> 3) (Products u))))
           (filter (\<lambda>u. filter (\<lambda>p. spec_days_left now p \<le> 3) (Products u) \<noteq> [])
              (fst (Preload_Products_Find db)))"
proof -
  have q: "qualifying now ps = filter (\<lambda>p. spec_days_left now p \<le> 3) ps" for ps
    using qualifying_spec[of now ps] by (simp add: spec_qualifies_def[abs_def])
  have n: "(Suc 0 \<le> length xs) = (xs \<noteq> [])" for xs :: "Product list"
    by (cases xs) simp_all
  have "(days_left now p \<le> 3) = (spec_days_left now p \<le> 3)"
    using days_left_le_3_iff[of now p] by (simp add: spec_qualifies_def)
  then show ?thesis
    by (simp add: job_messages q n concat_if_filter)
qed

text \<open>
  C2. In a run, every loaded user with at least one qualifying product is sent exactly one
  message, addressed to the user's email and listing all of the user's qualifying products;
  a user with none is sent nothing. The messages of the run are the users' contributions in
  order, each one message or none, so their number is the number of users with a qualifying
  product.
\<close>

theorem one_notification_per_user:
  "map fst (dials (checkExpiryJob smtp db now))
     = concat (map (\<lambda>u. if 1 \<le> length (qualifying now (Products u))
                         then [mail (Email u) (map (description now) (qualifying now (Products u)))]
                         else [])
                (fst (Preload_Products_Find db)))
   \<and> length (dials (checkExpiryJob smtp db now))
     = length (filter (\<lambda>u. 1 \<le> length (qualifying now (Products u)))
                 (fst (Preload_Products_Find db)))"
proof -
  have m: "map fst (dials (checkExpiryJob smtp db now))
     = concat (map (\<lambda>u. if 1 \<le> length (qualifying now (Products u))
                         then [mail (Email u) (map (description now) (qualifying now (Products u)))]
                         else [])
                (fst (Preload_Products_Find db)))"
    by (rule job_messages)
  have "length (dials (checkExpiryJob smtp db now))
          = length (map fst (dials (checkExpiryJob smtp db now)))"
    by simp
  also have "\<dots> = length (filter (\<lambda>u. 1 \<le> length (qualifying now (Products u)))
                 (fst (Preload_Products_Find db)))"
    unfolding m concat_if_filter by simp
  finally show ?thesis using m by simp
qed

text \<open>
  C6. A failed send does not stop the run and does not change who is written to: the
  messages dialled in a run are the same whatever the mail server answers. Every dial gets
  the server's answer for it, and every answer is logged, a failure as a failure.
\<close>

theorem send_failure_isolated:
  "map fst (dials (checkExpiryJob smtp db now)) = map fst (dials (checkExpiryJob smtp' db now))
   \<and> map snd (dials (checkExpiryJob smtp db now))
       = map (\<lambda>(k, m). smtp k m) (enumerate 0 (map fst (dials (checkExpiryJob smtp db now))))
   \<and> filter is_outcome (logs (checkExpiryJob smtp db now))
       = map outcome_line (dials (checkExpiryJob smtp db now))"
proof -
  have a: "map fst (dials (checkExpiryJob smtp db now))
             = map fst (dials (checkExpiryJob smtp' db now))"
    by (simp only: job_messages)
  obtain us e where l: "Preload_Products_Find db = (us, e)"
    by (cases "Preload_Products_Find db")
  have j: "checkExpiryJob smtp db now = user_loop smtp now us \<lparr>logs = [Running], dials = []\<rparr>"
    by (simp add: checkExpiryJob_def l)
  have b: "map snd (dials (checkExpiryJob smtp db now))
       = map (\<lambda>(k, m). smtp k m) (enumerate 0 (map fst (dials (checkExpiryJob smtp db now))))"
    unfolding j by (rule user_loop_oracle) simp
  have c: "filter is_outcome (logs (checkExpiryJob smtp db now))
       = map outcome_line (dials (checkExpiryJob smtp db now))"
    unfolding j by (rule user_loop_outcomes) (simp add: is_outcome_def)
  from a b c show ?thesis by simp
qed

text \<open>
  C7. The body of a user's message is the heading followed by one line per qualifying
  product, name and computed days left, in the order of the user's loaded products; and
  the loaded products of a user are the rows of the table with the user's id, in the
  order of the table.
\<close>

theorem notification_order:
  "map (\<lambda>d. Body (fst d)) (dials (checkExpiryJob smtp db now))
     = map (\<lambda>u. body_heading
                 @ concat (map (\<lambda>p. ''- '' @ ProductName p @ '' ('' @ thai_remaining @ '' ''
                                    @ fmt_d (days_left now p) @ '' '' @ thai_days @ '')''
                                    @ [CHR 0x0A])
                             (filter (\<lambda>p. days_left now p \<le> 3) (Products u))))
          (filter (\<lambda>u. filter (\<lambda>p. days_left now p \<le> 3) (Products u) \<noteq> [])
             (fst (Preload_Products_Find db)))
   \<and> map Products (fst (Preload_Products_Find db))
     = (if failing db SelectUsers then []
        else if failing db SelectProducts then map (\<lambda>r. []) (users db)
        else map (\<lambda>r. filter (\<lambda>p. UserID p = row_id r) (products db)) (users db))"
proof -
  have n: "(Suc 0 \<le> length xs) = (xs \<noteq> [])" for xs :: "Product list"
    by (cases xs) simp_all
  have "map (\<lambda>d. Body (fst d)) (dials (checkExpiryJob smtp db now))
          = map Body (map fst (dials (checkExpiryJob smtp db now)))"
    by simp
  also have "\<dots> = map Body (map (\<lambda>u. mail (Email u) (map (description now) (qualifying now (Products u))))
                       (filter (\<lambda>u. qualifying now (Products u) \<noteq> []) (fst (Preload_Products_Find db))))"
    unfolding job_messages concat_if_filter by (simp add: n)
  finally have a: "map (\<lambda>d. Body (fst d)) (dials (checkExpiryJob smtp db now))
     = map (\<lambda>u. body_heading
                 @ concat (map (\<lambda>p. ''- '' @ ProductName p @ '' ('' @ thai_remaining @ '' ''
                                    @ fmt_d (days_left now p) @ '' '' @ thai_days @ '')''
                                    @ [CHR 0x0A])
                             (filter (\<lambda>p. days_left now p \<le> 3) (Products u))))
          (filter (\<lambda>u. filter (\<lambda>p. days_left now p \<le> 3) (Products u) \<noteq> [])
             (fst (Preload_Products_Find db)))"
    by (simp add: mail_def description_def Sprintf_expiring_def qualifying_def comp_def)
  have b: "map Products (fst (Preload_Products_Find db))
     = (if failing db SelectUsers then []
        else if failing db SelectProducts then map (\<lambda>r. []) (users db)
        else map (\<lambda>r. filter (\<lambda>p. UserID p = row_id r) (products db)) (users db))"
    by (simp add: Preload_Products_Find_def scan_user_def comp_def)
  from a b show ?thesis by simp
qed

text \<open>
  C10. The notifications of a run are determined by the users and products the store
  returned and by \<open>now\<close>: two runs that load the same users at the same \<open>now\<close> address the
  same recipients with the same bodies, in the same order, whatever else differs (the rest
  of the store, the answers of the mail server).
\<close>

theorem notifications_deterministic:
  assumes "fst (Preload_Products_Find db) = fst (Preload_Products_Find db')"
  shows "map (\<lambda>d. (To (fst d), Body (fst d))) (dials (checkExpiryJob smtp db now))
       = map (\<lambda>d. (To (fst d), Body (fst d))) (dials (checkExpiryJob smtp' db' now))"
proof -
  have "map fst (dials (checkExpiryJob smtp db now)) = map fst (dials (checkExpiryJob smtp' db' now))"
    using assms by (simp only: job_messages)
  then have "map (\<lambda>m. (To m, Body m)) (map fst (dials (checkExpiryJob smtp db now)))
           = map (\<lambda>m. (To m, Body m)) (map fst (dials (checkExpiryJob smtp' db' now)))"
    by simp
  then show ?thesis by (simp add: comp_def)
qed

theorem notifications_deterministic_witness:
  "fst (Preload_Products_Find store1) = fst (Preload_Products_Find store2)
   \<and> map (\<lambda>d. (To (fst d), Body (fst d))) (dials (checkExpiryJob smtp_up store1 0))
       = map (\<lambda>d. (To (fst d), Body (fst d))) (dials (checkExpiryJob smtp_down store2 0))"
proof -
  have h: "fst (Preload_Products_Find store1) = fst (Preload_Products_Find store2)"
    by (simp add: Preload_Products_Find_def store1_def store2_def no_faults_def scan_user_def)
  from h notifications_deterministic[OF h, of smtp_up 0 smtp_down] show ?thesis by simp
qed

section \<open>Runs of the examples\<close>

text \<open>
  At instant 0 only A is written to, about the milk with 2 days left. Eight days later both
  users are written to, the milk six days past its expiry; the first dial fails and the
  second user is written to all the same. The day count of a product long expired is the
  float64 result, which here is one less than the exact truncated quotient.
\<close>

lemma scenario_two_users:
  "dials (checkExpiryJob smtp_up store1 0)
     = [(mail ''a@x.com'' [''Milk ('' @ thai_remaining @ '' 2 '' @ thai_days @ '')''], None)]"
  by code_simp

lemma scenario_first_send_fails:
  "checkExpiryJob smtp_first_fails store1 (8 * 24 * Hour)
     = \<lparr>logs = [Running,
                Preparing ''a@x.com'' [''Milk ('' @ thai_remaining @ '' -6 '' @ thai_days @ '')''],
                SendFailed ''dial tcp: connection refused'',
                Preparing ''b@x.com'' [''Rice ('' @ thai_remaining @ '' 2 '' @ thai_days @ '')''],
                Sent ''b@x.com''],
        dials = [(mail ''a@x.com'' [''Milk ('' @ thai_remaining @ '' -6 '' @ thai_days @ '')''],
                  Some ''dial tcp: connection refused''),
                 (mail ''b@x.com'' [''Rice ('' @ thai_remaining @ '' 2 '' @ thai_days @ '')''],
                  None)]\<rparr>"
  by code_simp

lemma days_left_not_exact:
  "days_left 0 long_expired = - 200 \<and> spec_days_left 0 long_expired = - 199"
  by code_simp

section \<open>The store and the handlers\<close>

lemma fold_max_ge: "a \<le> fold max xs (a::nat)"
proof (induction xs arbitrary: a)
  case Nil
  show ?case by simp
next
  case (Cons x xs)
  have "a \<le> max x a" by simp
  also have "\<dots> \<le> fold max xs (max x a)" by (rule Cons.IH)
  finally show ?case by simp
qed

lemma fold_max_bound: "x \<in> set xs \<Longrightarrow> x \<le> fold max xs (a::nat)"
proof (induction xs arbitrary: a)
  case Nil
  then show ?case by simp
next
  case (Cons y ys)
  show ?case
  proof (cases "x = y")
    case True
    have "y \<le> max y a" by simp
    also have "\<dots> \<le> fold max ys (max y a)" by (rule fold_max_ge)
    finally show ?thesis using True by simp
  next
    case False
    with Cons.prems have "x \<in> set ys" by simp
    then show ?thesis using Cons.IH by simp
  qed
qed

lemma next_id_fresh: "next_id ids \<notin> set ids"
proof
  assume "next_id ids \<in> set ids"
  then have "next_id ids \<le> fold max ids 0" by (rule fold_max_bound)
  then show False by (simp add: next_id_def)
qed

lemma next_id_pos: "0 < next_id ids"
  by (simp add: next_id_def)

lemma first_by_id_row:
  "first_by_id rs = Inr u \<Longrightarrow> ID u \<in> row_id ` set rs"
proof -
  assume a: "first_by_id rs = Inr u"
  then have ne: "rs \<noteq> []" by (auto simp: first_by_id_def)
  then have "arg_min_list row_id rs \<in> set rs" by (rule arg_min_list_in)
  moreover have "u = scan_user (arg_min_list row_id rs)"
    using a ne by (simp add: first_by_id_def)
  ultimately show ?thesis by (auto simp: scan_user_def)
qed

lemma First_User_row:
  "First_User db c = Inr u \<Longrightarrow> ID u \<in> row_id ` set (users db)"
proof -
  assume a: "First_User db c = Inr u"
  then obtain P where "first_by_id (filter P (users db)) = Inr u"
    by (auto simp: First_User_def split: if_splits option.splits)
  then have "ID u \<in> row_id ` set (filter P (users db))" by (rule first_by_id_row)
  then show ?thesis by auto
qed

lemma set_user_field_err:
  "fst (set_user_field kv (e, inp)) = None \<longleftrightarrow> e = None \<and> user_member_ok kv"
  by (cases kv; cases "snd kv")
     (auto simp: set_user_field_def user_member_ok_def keep_first_def split: option.splits)

lemma fold_set_user_field_err:
  "fst (fold set_user_field kvs acc) = None \<longleftrightarrow> fst acc = None \<and> list_all user_member_ok kvs"
proof (induction kvs arbitrary: acc)
  case Nil
  show ?case by simp
next
  case (Cons kv kvs)
  obtain e inp where acc: "acc = (e, inp)" by (cases acc)
  show ?case
    using set_user_field_err[of kv e inp] by (auto simp: Cons.IH acc)
qed

lemma bind_user_binds: "(\<exists>inp. bind_user body = Inr inp) = binds_user body"
proof (cases body)
  case None
  then show ?thesis by (simp add: bind_user_def binds_user_def)
next
  case (Some j)
  show ?thesis
  proof (cases j)
    case (JObject kvs)
    obtain e inp where f: "fold set_user_field kvs (None, \<lparr>input_Name = [], input_Email = []\<rparr>) = (e, inp)"
      by (cases "fold set_user_field kvs (None, \<lparr>input_Name = [], input_Email = []\<rparr>)")
    have "e = None \<longleftrightarrow> list_all user_member_ok kvs"
      using fold_set_user_field_err[of kvs "(None, \<lparr>input_Name = [], input_Email = []\<rparr>)"] f
      by simp
    then show ?thesis
      using Some JObject f by (cases e) (simp_all add: bind_user_def binds_user_def)
  qed (simp_all add: Some bind_user_def binds_user_def)
qed

lemma createUser_bound:
  assumes "bind_user body = Inr inp"
  shows "createUser db body =
     (if failing db InsertUser
      then (db, \<lparr>status = StatusOK,
                 obj = UserPayload \<lparr>ID = 0, Name = input_Name inp, Email = input_Email inp,
                                     Products = []\<rparr>\<rparr>)
      else (db\<lparr>users := users db @ [\<lparr>row_id = next_id (map row_id (users db)),
                                      row_name = input_Name inp, row_email = input_Email inp\<rparr>]\<rparr>,
            \<lparr>status = StatusOK,
             obj = UserPayload \<lparr>ID = next_id (map row_id (users db)), Name = input_Name inp,
                                 Email = input_Email inp, Products = []\<rparr>\<rparr>))"
  using assms by (simp add: createUser_def Create_User_def Let_def)

lemma createUser_unbound:
  "bind_user body = Inl e \<Longrightarrow>
     createUser db body = (db, \<lparr>status = StatusBadRequest, obj = BindFailure e\<rparr>)"
  by (simp add: createUser_def)

text \<open>
  C8 (amended). POST /users reads the first JSON value of the body and nothing after it.
  When that value binds to the input (it is the literal null, or an object whose members
  named name or email, letter case ignored, are strings or null) and the insert succeeds,
  the response is 200 and carries the created user: name and email from the body, Products
  empty (the nil slice, which the response writes as null), and the id of the row that the
  request appended to the table, an id the table did not have. When the body has no
  well-formed first JSON value, or that value does not bind, the response is 400 and the
  store is left as it was. Nothing is said of a request whose insert fails.
\<close>

theorem createUser_contract:
  "(\<forall>inp. bind_user body = Inr inp \<and> \<not> failing db InsertUser \<longrightarrow>
       status (snd (createUser db body)) = StatusOK
       \<and> (\<exists>u. obj (snd (createUser db body)) = UserPayload u
               \<and> Name u = input_Name inp \<and> Email u = input_Email inp \<and> Products u = []
               \<and> fst (createUser db body)
                   = db\<lparr>users := users db @ [\<lparr>row_id = ID u, row_name = Name u,
                                                 row_email = Email u\<rparr>]\<rparr>
               \<and> ID u \<notin> row_id ` set (users db)))
   \<and> (\<forall>e. bind_user body = Inl e \<longrightarrow>
          status (snd (createUser db body)) = StatusBadRequest \<and> fst (createUser db body) = db)
   \<and> ((\<exists>inp. bind_user body = Inr inp) = binds_user body)"
proof (intro conjI allI impI)
  fix inp assume "bind_user body = Inr inp \<and> \<not> failing db InsertUser"
  then have b: "bind_user body = Inr inp" and f: "\<not> failing db InsertUser"
    by simp_all
  show "status (snd (createUser db body)) = StatusOK"
    by (simp add: createUser_bound[OF b])
  show "\<exists>u. obj (snd (createUser db body)) = UserPayload u
               \<and> Name u = input_Name inp \<and> Email u = input_Email inp \<and> Products u = []
               \<and> fst (createUser db body)
                   = db\<lparr>users := users db @ [\<lparr>row_id = ID u, row_name = Name u,
                                                 row_email = Email u\<rparr>]\<rparr>
               \<and> ID u \<notin> row_id ` set (users db)"
    using next_id_fresh[of "map row_id (users db)"] f
    by (simp add: createUser_bound[OF b])
next
  fix e assume b: "bind_user body = Inl e"
  show "status (snd (createUser db body)) = StatusBadRequest"
    by (simp add: createUser_unbound[OF b])
  show "fst (createUser db body) = db"
    by (simp add: createUser_unbound[OF b])
next
  show "(\<exists>inp. bind_user body = Inr inp) = binds_user body"
    by (rule bind_user_binds)
qed

lemma store1_healthy: "failing store1 s = False"
  by (simp add: store1_def no_faults_def)

theorem createUser_contract_witness:
  "bind_user body_user_ok = Inr \<lparr>input_Name = ''C'', input_Email = ''c@x.com''\<rparr>
   \<and> \<not> failing store1 InsertUser
   \<and> status (snd (createUser store1 body_user_ok)) = StatusOK
   \<and> obj (snd (createUser store1 body_user_ok))
       = UserPayload \<lparr>ID = 3, Name = ''C'', Email = ''c@x.com'', Products = []\<rparr>
   \<and> users (fst (createUser store1 body_user_ok))
       = users store1 @ [\<lparr>row_id = 3, row_name = ''C'', row_email = ''c@x.com''\<rparr>]
   \<and> bind_user body_user_bad = Inl UnmarshalTypeError
   \<and> status (snd (createUser store1 body_user_bad)) = StatusBadRequest
   \<and> fst (createUser store1 body_user_bad) = store1"
proof -
  have h1: "bind_user body_user_ok = Inr \<lparr>input_Name = ''C'', input_Email = ''c@x.com''\<rparr>"
    by code_simp
  have h2: "bind_user body_user_bad = Inl UnmarshalTypeError"
    by code_simp
  have h3: "\<not> failing store1 InsertUser"
    by (simp add: store1_healthy)
  have o: "obj (snd (createUser store1 body_user_ok))
       = UserPayload \<lparr>ID = 3, Name = ''C'', Email = ''c@x.com'', Products = []\<rparr>"
    by code_simp
  from createUser_contract[of body_user_ok store1] h1 h3 o
  have a: "status (snd (createUser store1 body_user_ok)) = StatusOK
       \<and> users (fst (createUser store1 body_user_ok))
           = users store1 @ [\<lparr>row_id = 3, row_name = ''C'', row_email = ''c@x.com''\<rparr>]"
    by auto
  from createUser_contract[of body_user_bad store1] h2
  have b: "status (snd (createUser store1 body_user_bad)) = StatusBadRequest
       \<and> fst (createUser store1 body_user_bad) = store1"
    by blast
  from h1 h2 h3 o a b show ?thesis by simp
qed

theorem wellformed_body_rejected:
  "\<not> (\<forall>db j. status (snd (createUser db (Some j))) = StatusOK)"
proof
  assume "\<forall>db j. status (snd (createUser db (Some j))) = StatusOK"
  then have "status (snd (createUser store1
      (Some (JObject [(''name'', JNumber 5), (''email'', JString ''c@x.com'')])))) = StatusOK"
    by blast
  moreover have "status (snd (createUser store1
      (Some (JObject [(''name'', JNumber 5), (''email'', JString ''c@x.com'')])))) = StatusBadRequest"
    by code_simp
  ultimately show False by (simp add: StatusOK_def StatusBadRequest_def)
qed

lemma addProductToUser_unbound:
  "bind_product parse body = Inl b \<Longrightarrow>
     addProductToUser parse now db ident body
       = (db, \<lparr>status = StatusBadRequest, obj = BindFailure b\<rparr>)"
  by (simp add: addProductToUser_def)

lemma addProductToUser_no_user:
  "bind_product parse body = Inr inp \<Longrightarrow> First_User db ident = Inl e \<Longrightarrow>
     addProductToUser parse now db ident body
       = (db, \<lparr>status = StatusNotFound, obj = ErrorMessage ''user not found''\<rparr>)"
  by (simp add: addProductToUser_def)

lemma addProductToUser_user:
  "bind_product parse body = Inr inp \<Longrightarrow> First_User db ident = Inr u \<Longrightarrow>
     addProductToUser parse now db ident body
       = (if failing db InsertProduct
          then (db, \<lparr>status = StatusOK,
                     obj = ProductPayload \<lparr>ProductID = 0, ProductName = input_ProductName inp,
                        Expiry = input_Expiry inp, UserID = ID u, CreatedAt = now\<rparr>\<rparr>)
          else (db\<lparr>products := products db
                       @ [\<lparr>ProductID = next_id (map ProductID (products db)),
                           ProductName = input_ProductName inp, Expiry = input_Expiry inp,
                           UserID = ID u, CreatedAt = now\<rparr>]\<rparr>,
                \<lparr>status = StatusOK,
                 obj = ProductPayload \<lparr>ProductID = next_id (map ProductID (products db)),
                        ProductName = input_ProductName inp, Expiry = input_Expiry inp,
                        UserID = ID u, CreatedAt = now\<rparr>\<rparr>))"
  by (simp add: addProductToUser_def Create_Product_def Let_def)

lemma addProductToUser_effect:
  "(\<forall>e. First_User db ident = Inl e \<longrightarrow>
       fst (addProductToUser parse now db ident body) = db
       \<and> status (snd (addProductToUser parse now db ident body))
           = (case bind_product parse body of
                Inl b \<Rightarrow> StatusBadRequest | Inr i \<Rightarrow> StatusNotFound))
   \<and> users (fst (addProductToUser parse now db ident body)) = users db
   \<and> (products (fst (addProductToUser parse now db ident body)) = products db
      \<or> (\<exists>p. products (fst (addProductToUser parse now db ident body)) = products db @ [p]
              \<and> UserID p \<in> row_id ` set (users db)))"
proof (cases "bind_product parse body")
  case (Inl b)
  then show ?thesis by (simp add: addProductToUser_unbound)
next
  case (Inr inp)
  show ?thesis
  proof (cases "First_User db ident")
    case (Inl e)
    with Inr show ?thesis by (simp add: addProductToUser_no_user)
  next
    case u: (Inr u)
    have "ID u \<in> row_id ` set (users db)" using u by (rule First_User_row)
    then show ?thesis
      using Inr u by (simp add: addProductToUser_user)
  qed
qed

lemma First_User_unknown_number:
  assumes "Atoi ident = Some n" and "\<forall>r \<in> set (users db). int (row_id r) \<noteq> n"
  shows "\<exists>e. First_User db ident = Inl e"
proof -
  have "filter (\<lambda>r. int (row_id r) = n) (users db) = []"
    using assms(2) by (simp add: filter_empty_conv)
  then show ?thesis
    using assms(1) by (simp add: First_User_def first_by_id_def)
qed

lemma unknown_numeric_id:
  assumes "Atoi ident = Some n" and "\<forall>r \<in> set (users db). int (row_id r) \<noteq> n"
  shows "fst (addProductToUser parse now db ident body) = db
       \<and> status (snd (addProductToUser parse now db ident body))
           = (case bind_product parse body of
                Inl b \<Rightarrow> StatusBadRequest | Inr i \<Rightarrow> StatusNotFound)"
proof -
  obtain e where "First_User db ident = Inl e"
    using First_User_unknown_number[OF assms] by blast
  then show ?thesis
    using addProductToUser_effect[of db ident parse now body] by simp
qed

lemma body_checked_before_user:
  "First_User store1 ''7'' = Inl ErrRecordNotFound
   \<and> status (snd (addProductToUser parse_example 5 store1 ''7'' None)) = 400
   \<and> status (snd (addProductToUser parse_example 5 store1 ''7'' body_product_ok)) = 404"
  by code_simp

text \<open>
  C9. GET /users answers 200 with the users as the rows of the table give them, the
  association Products of every one of them empty, whatever products the store holds for
  them; the store is not changed.
\<close>

theorem listUsers_products_unloaded:
  "fst (listUsers db) = db
   \<and> status (snd (listUsers db)) = StatusOK
   \<and> (\<exists>us. obj (snd (listUsers db)) = UsersPayload us
            \<and> (\<forall>u \<in> set us. Products u = [])
            \<and> (\<not> failing db SelectUsers \<longrightarrow> map ID us = map row_id (users db)))"
proof -
  obtain us e where f: "Find_Users db = (us, e)"
    by (cases "Find_Users db")
  have r: "listUsers db = (db, \<lparr>status = StatusOK, obj = UsersPayload us\<rparr>)"
    by (simp add: listUsers_def f)
  have u: "us = (if failing db SelectUsers then [] else map scan_user (users db))"
    using f by (simp add: Find_Users_def split: if_splits)
  have p: "\<forall>u \<in> set us. Products u = []"
    unfolding u by (simp add: scan_user_def)
  have i: "\<not> failing db SelectUsers \<longrightarrow> map ID us = map row_id (users db)"
    unfolding u by (simp add: scan_user_def comp_def)
  from r p i show ?thesis by simp
qed

theorem listUsers_products_unloaded_witness:
  "\<not> failing store1 SelectUsers
   \<and> filter (\<lambda>p. UserID p = 1) (products store1) \<noteq> []
   \<and> obj (snd (listUsers store1))
       = UsersPayload [\<lparr>ID = 1, Name = ''A'', Email = ''a@x.com'', Products = []\<rparr>,
                       \<lparr>ID = 2, Name = ''B'', Email = ''b@x.com'', Products = []\<rparr>]
   \<and> fst (listUsers store1) = store1"
proof -
  have h: "\<not> failing store1 SelectUsers" by (simp add: store1_healthy)
  have p: "filter (\<lambda>p. UserID p = 1) (products store1) \<noteq> []" by (simp add: store1_def)
  from listUsers_products_unloaded[of store1] h
  obtain us where us: "obj (snd (listUsers store1)) = UsersPayload us"
      "\<forall>u \<in> set us. Products u = []" "map ID us = map row_id (users store1)"
      and f: "fst (listUsers store1) = store1"
    by blast
  have "obj (snd (listUsers store1))
       = UsersPayload [\<lparr>ID = 1, Name = ''A'', Email = ''a@x.com'', Products = []\<rparr>,
                       \<lparr>ID = 2, Name = ''B'', Email = ''b@x.com'', Products = []\<rparr>]"
    by code_simp
  with h p f show ?thesis by simp
qed

section \<open>Where the code departs from the specification\<close>

text \<open>
  C3. createUser does not inspect the result of the insert: when the insert fails, a
  request with a good body is still answered 200, with a user that has no id and is in
  no table.
\<close>

theorem createUser_ignores_insert_failure:
  "createUser (store1\<lparr>failing := insert_faults\<rparr>) body_user_ok
     = (store1\<lparr>failing := insert_faults\<rparr>,
        \<lparr>status = 200,
         obj = UserPayload \<lparr>ID = 0, Name = ''C'', Email = ''c@x.com'', Products = []\<rparr>\<rparr>)"
proof -
  have "bind_user body_user_ok = Inr \<lparr>input_Name = ''C'', input_Email = ''c@x.com''\<rparr>"
    by code_simp
  then show ?thesis
    by (simp add: createUser_bound insert_faults_def StatusOK_def)
qed

lemma job_read_failure:
  "failing db SelectUsers \<or> failing db SelectProducts \<Longrightarrow>
     checkExpiryJob smtp db now = \<lparr>logs = [Running], dials = []\<rparr>"
proof -
  assume f: "failing db SelectUsers \<or> failing db SelectProducts"
  have q: "qualifying now (Products (scan_user r)) = []" for r
    by (simp add: qualifying_def scan_user_def)
  have l: "user_loop smtp now (map scan_user rs) run = run" for rs run
  proof (induction rs)
    case Nil
    show ?case by simp
  next
    case (Cons r rs)
    then show ?case by (simp only: list.map user_loop_skip[OF q])
  qed
  show ?thesis
    using f by (auto simp: checkExpiryJob_def Preload_Products_Find_def l)
qed

text \<open>
  C4. listUserProducts never looks the user up: for an id that no user has, a healthy
  store answers the query with no rows and no error, and the response is 200 with an empty
  list.
\<close>

theorem listUserProducts_unknown_user:
  "First_User store1 ''7'' = Inl ErrRecordNotFound
   \<and> listUserProducts store1 ''7'' = (store1, \<lparr>status = 200, obj = ProductsPayload []\<rparr>)"
proof -
  have a: "First_User store1 ''7'' = Inl ErrRecordNotFound"
    by code_simp
  have "Where_user_id_Find store1 ''7'' = ([], None)"
    by code_simp
  then have "listUserProducts store1 ''7'' = (store1, \<lparr>status = 200, obj = ProductsPayload []\<rparr>)"
    by (simp add: listUserProducts_def StatusOK_def)
  with a show ?thesis by simp
qed

lemma listUserProducts_numeric_text:
  "snd (listUserProducts store1 ''1.0'')
     = \<lparr>status = 200,
        obj = ProductsPayload [\<lparr>ProductID = 1, ProductName = ''Milk'', Expiry = 172800000000000,
                                 UserID = 1, CreatedAt = 0\<rparr>]\<rparr>"
  by code_simp

lemma listUserProducts_status:
  "status (snd (listUserProducts db ident))
     = (if failing db SelectProducts then StatusNotFound else StatusOK)"
  by (simp add: listUserProducts_def Where_user_id_Find_def)

text \<open>
  C5. addProductToUser hands the path text to \<^verbatim>\<open>db.First\<close> as it is, and a text that is
  no number is run as an inline SQL condition. The text \<^verbatim>\<open>1=1\<close> is the id of no user, yet
  it holds of every row: the lookup returns the first user, the response is 200 and a
  product is inserted under user 1, where a request whose id names no existing user is to
  be answered 404 and to add no row.
\<close>

theorem addProductToUser_inline_condition:
  "parse_int ''1=1'' = None
   \<and> addProductToUser parse_example 5 store1 ''1=1'' body_product_ok
       = (store1\<lparr>products := products store1
                    @ [\<lparr>ProductID = 3, ProductName = ''Eggs'', Expiry = 1759935845000000000,
                        UserID = 1, CreatedAt = 5\<rparr>]\<rparr>,
          \<lparr>status = 200,
           obj = ProductPayload \<lparr>ProductID = 3, ProductName = ''Eggs'',
                                  Expiry = 1759935845000000000, UserID = 1, CreatedAt = 5\<rparr>\<rparr>)"
proof -
  have n: "parse_int ''1=1'' = None"
    by code_simp
  have b: "bind_product parse_example body_product_ok
       = Inr \<lparr>input_ProductName = ''Eggs'', input_Expiry = 1759935845000000000\<rparr>"
    by code_simp
  have u: "First_User store1 ''1=1''
       = Inr \<lparr>ID = 1, Name = ''A'', Email = ''a@x.com'', Products = []\<rparr>"
    by code_simp
  have i: "next_id (map ProductID (products store1)) = 3"
    by code_simp
  show ?thesis
    using n by (simp add: addProductToUser_user[OF b u] i store1_healthy StatusOK_def)
qed

lemma overflowing_id_resolves:
  "Atoi ''99999999999999999999'' = None
   \<and> First_User store1 ''99999999999999999999''
       = Inr \<lparr>ID = 1, Name = ''A'', Email = ''a@x.com'', Products = []\<rparr>
   \<and> status (snd (addProductToUser parse_example 5 store1 ''99999999999999999999''
                     body_product_ok)) = 200"
  by code_simp

end
